theory Spec2Isabelle
  imports Complex_Main "HOL-Library.Char_ord" "HOL-Library.List_Lexorder"
begin

section \<open>Strava to Google Sheets sync: a shallow embedding of strava_sheets_sync.py\<close>

text \<open>
  Conventions of the embedding.
  \<^item> Python exceptions are values of the type \<open>error\<close>; a function that may raise returns
    \<open>error + 'a\<close> with \<open>Inl\<close> for the exception.
  \<^item> A dict read with \<open>d[k]\<close> is a record field of option type, \<open>None\<close> standing for the
    absent key (the read raises \<open>KeyError\<close>); \<open>d.get(k, default)\<close> is the same field with
    the default written out.
  \<^item> Python floats are modelled by the rationals they denote and float operations by the exact
    operations; Python ints are \<open>int\<close>.
  \<^item> Strings are lists of 8-bit characters.
  \<^item> Console output (\<open>print\<close>) is not modelled.
\<close>

datatype error =
    KeyError string
  | ValueError string
  | HTTPError nat
  | ConnectionError

subsection \<open>Configuration and the token endpoint\<close>

text \<open>The \<open>"strava"\<close> section of config.json.\<close>

record strava_config =
  client_id :: "string option"
  client_secret :: "string option"
  access_token :: "string option"
  refresh_token :: "string option"
  token_expires_at :: "int option"

text \<open>The form data of the POST to \<open>https://www.strava.com/oauth/token\<close> in
  \<open>ensure_strava_token\<close>.\<close>

record token_request =
  req_client_id :: string
  req_client_secret :: string
  req_grant_type :: string
  req_refresh_token :: string

text \<open>The JSON object of the token endpoint's reply, read with \<open>tokens[...]\<close>.\<close>

record tokens_json =
  tok_access_token :: "string option"
  tok_refresh_token :: "string option"
  tok_expires_at :: "int option"

text \<open>What a \<open>requests\<close> call gives back: no response at all, or a status code and a body.\<close>

datatype 'a reply = Unreachable | Response nat 'a

text \<open>\<open>resp.raise_for_status()\<close>: status codes 400 to 599 raise.\<close>

definition raise_for_status :: "'a reply \<Rightarrow> error + 'a" where
  "raise_for_status r =
     (case r of
        Unreachable \<Rightarrow> Inl ConnectionError
      | Response st body \<Rightarrow> if 400 \<le> st \<and> st < 600 then Inl (HTTPError st) else Inr body)"

text \<open>
  The state \<open>ensure_strava_token\<close> reads and writes: the config dict in memory (mutated in
  place), the contents of config.json as last written by \<open>save_config\<close> (\<open>None\<close> while this
  run has not written it), and the log of the token requests sent.
\<close>

record token_world =
  config :: strava_config
  saved :: "strava_config option"
  token_requests :: "token_request list"

definition expires_at_of :: "strava_config \<Rightarrow> int" where
  \<comment> \<open>\<open>config["strava"].get("token_expires_at", 0)\<close>\<close>
  "expires_at_of cfg = (case token_expires_at cfg of None \<Rightarrow> 0 | Some e \<Rightarrow> e)"

definition refresh_request :: "strava_config \<Rightarrow> error + token_request" where
  \<comment> \<open>the \<open>data=\<close> dict of the refresh POST, its entries evaluated in source order\<close>
  "refresh_request cfg =
     (case client_id cfg of
        None \<Rightarrow> Inl (KeyError ''client_id'')
      | Some cid \<Rightarrow>
     (case client_secret cfg of
        None \<Rightarrow> Inl (KeyError ''client_secret'')
      | Some sec \<Rightarrow>
     (case refresh_token cfg of
        None \<Rightarrow> Inl (KeyError ''refresh_token'')
      | Some rt \<Rightarrow>
          Inr \<lparr>req_client_id = cid, req_client_secret = sec,
               req_grant_type = ''refresh_token'', req_refresh_token = rt\<rparr>)))"

definition store_tokens :: "tokens_json \<Rightarrow> token_world \<Rightarrow> (error + string) \<times> token_world" where
  \<comment> \<open>the three assignments into \<open>config["strava"]\<close>, then \<open>save_config\<close>, then the return\<close>
  "store_tokens tokens w =
     (case tok_access_token tokens of
        None \<Rightarrow> (Inl (KeyError ''access_token''), w)
      | Some a \<Rightarrow>
     (let w1 = w\<lparr>config := (config w)\<lparr>access_token := Some a\<rparr>\<rparr> in
      case tok_refresh_token tokens of
        None \<Rightarrow> (Inl (KeyError ''refresh_token''), w1)
      | Some r \<Rightarrow>
     (let w2 = w1\<lparr>config := (config w1)\<lparr>refresh_token := Some r\<rparr>\<rparr> in
      case tok_expires_at tokens of
        None \<Rightarrow> (Inl (KeyError ''expires_at''), w2)
      | Some e \<Rightarrow>
     (let w3 = w2\<lparr>config := (config w2)\<lparr>token_expires_at := Some e\<rparr>\<rparr>;
          w4 = w3\<lparr>saved := Some (config w3)\<rparr>
      in (Inr a, w4)))))"

definition ensure_strava_token ::
  "(token_request \<Rightarrow> tokens_json reply) \<Rightarrow> rat \<Rightarrow> token_world \<Rightarrow> (error + string) \<times> token_world"
where
  \<comment> \<open>\<open>server\<close> is the token endpoint, \<open>now\<close> the value of \<open>time.time()\<close>\<close>
  "ensure_strava_token server now w =
     (let expires_at = expires_at_of (config w) in
      if now < of_int (expires_at - 60) then
        (case access_token (config w) of
           None \<Rightarrow> (Inl (KeyError ''access_token''), w)
         | Some t \<Rightarrow> (Inr t, w))
      else
        (case refresh_request (config w) of
           Inl e \<Rightarrow> (Inl e, w)
         | Inr req \<Rightarrow>
            (let w' = w\<lparr>token_requests := token_requests w @ [req]\<rparr> in
             case raise_for_status (server req) of
               Inl e \<Rightarrow> (Inl e, w')
             | Inr tokens \<Rightarrow> store_tokens tokens w')))"

subsection \<open>Fetching activities\<close>

text \<open>
  A raw activity as the Strava API returns it; \<open>None\<close> is an absent key. The distance is in
  metres, the moving time in whole seconds.
\<close>

record activity =
  raw_distance :: "rat option"
  raw_moving_time :: "int option"
  raw_type :: "string option"
  raw_start_date_local :: "string option"
  raw_start_date :: "string option"
  raw_name :: "string option"

text \<open>The header and the query parameters of one GET to the activities endpoint.\<close>

record activities_request =
  req_bearer :: string
  req_after :: int
  req_page :: nat
  req_per_page :: nat

definition py_int :: "rat \<Rightarrow> int" where
  \<comment> \<open>\<open>int(x)\<close> on a float: truncation towards zero\<close>
  "py_int x = (if 0 \<le> x then \<lfloor>x\<rfloor> else \<lceil>x\<rceil>)"

definition per_page :: nat where
  "per_page = 50"

definition page_request :: "string \<Rightarrow> rat \<Rightarrow> nat \<Rightarrow> activities_request" where
  \<comment> \<open>the \<open>headers\<close> and \<open>params\<close> of the request for one page\<close>
  "page_request token after_timestamp page =
     \<lparr>req_bearer = token, req_after = py_int after_timestamp,
      req_page = page, req_per_page = per_page\<rparr>"

text \<open>
  The \<open>while True\<close> loop of \<open>fetch_activities\<close>. It has no bound of its own (a server that
  always answers with full pages keeps it running), so it is a partial function: \<open>None\<close> is
  the run that never returns. The result carries the requests sent, in order.
\<close>

partial_function (option) fetch_pages ::
  "(activities_request \<Rightarrow> activity list reply) \<Rightarrow> string \<Rightarrow> rat \<Rightarrow> nat \<Rightarrow> activity list \<Rightarrow>
   activities_request list \<Rightarrow> ((error + activity list) \<times> activities_request list) option"
where
  "fetch_pages server token after_timestamp page activities sent =
     (let req = page_request token after_timestamp page;
          sent' = sent @ [req]
      in case raise_for_status (server req) of
           Inl e \<Rightarrow> Some (Inl e, sent')
         | Inr batch \<Rightarrow>
             if batch = [] then Some (Inr activities, sent')
             else if length batch < per_page then Some (Inr (activities @ batch), sent')
             else fetch_pages server token after_timestamp (page + 1) (activities @ batch) sent')"

definition truthy_str :: "string option \<Rightarrow> bool" where
  \<comment> \<open>Python truth value of a string or \<open>None\<close>\<close>
  "truthy_str s = (case s of None \<Rightarrow> False | Some t \<Rightarrow> t \<noteq> [])"

definition fetch_activities ::
  "(activities_request \<Rightarrow> activity list reply) \<Rightarrow> string \<Rightarrow> rat \<Rightarrow> string option \<Rightarrow>
   ((error + activity list) \<times> activities_request list) option"
where
  "fetch_activities server token after_timestamp activity_type =
     (case fetch_pages server token after_timestamp 1 [] [] of
        None \<Rightarrow> None
      | Some (Inl e, sent) \<Rightarrow> Some (Inl e, sent)
      | Some (Inr activities, sent) \<Rightarrow>
          Some (Inr (if truthy_str activity_type
                     then filter (\<lambda>a. raw_type a = activity_type) activities
                     else activities), sent))"

subsection \<open>Formatting numbers\<close>

definition digit_char :: "nat \<Rightarrow> char" where
  "digit_char n = ''0123456789'' ! (n mod 10)"

fun str_nat :: "nat \<Rightarrow> string" where
  "str_nat n = (if n < 10 then [digit_char n] else str_nat (n div 10) @ [digit_char n])"

declare str_nat.simps [simp del]

definition str_int :: "int \<Rightarrow> string" where
  \<comment> \<open>\<open>f"{i}"\<close> for an int\<close>
  "str_int i = (if i < 0 then CHR ''-'' # str_nat (nat (- i)) else str_nat (nat i))"

definition zero_pad :: "nat \<Rightarrow> string \<Rightarrow> string" where
  "zero_pad w s = replicate (w - length s) CHR ''0'' @ s"

definition fmt_02d :: "int \<Rightarrow> string" where
  \<comment> \<open>\<open>f"{i:02d}"\<close>: the sign counts towards the width and comes before the padding\<close>
  "fmt_02d i = (if i < 0 then CHR ''-'' # zero_pad 1 (str_nat (nat (- i)))
                else zero_pad 2 (str_nat (nat i)))"

definition round_half_even :: "rat \<Rightarrow> int" where
  "round_half_even x =
     (let f = \<lfloor>x\<rfloor>; d = x - of_int f
      in if d < 1 / 2 then f else if 1 / 2 < d then f + 1 else if even f then f else f + 1)"

definition py_round2 :: "rat \<Rightarrow> rat" where
  \<comment> \<open>\<open>round(x, 2)\<close>\<close>
  "py_round2 x = of_int (round_half_even (x * 100)) / 100"

definition py_floordiv :: "rat \<Rightarrow> rat \<Rightarrow> rat" where
  \<comment> \<open>\<open>x // y\<close> on floats, for \<open>y \<noteq> 0\<close>\<close>
  "py_floordiv x y = of_int \<lfloor>x / y\<rfloor>"

definition py_mod :: "rat \<Rightarrow> rat \<Rightarrow> rat" where
  \<comment> \<open>\<open>x % y\<close> on floats, for \<open>y \<noteq> 0\<close>: the result has the sign of \<open>y\<close>\<close>
  "py_mod x y = x - y * of_int \<lfloor>x / y\<rfloor>"


subsection \<open>Calendar dates and \<open>datetime\<close>\<close>

definition is_digit :: "char \<Rightarrow> bool" where
  "is_digit c \<longleftrightarrow> c \<in> set ''0123456789''"

definition digit_val :: "char \<Rightarrow> nat" where
  "digit_val c = of_char c - 48"

definition digits_val :: "string \<Rightarrow> nat" where
  \<comment> \<open>\<open>int(s)\<close> for a string of decimal digits\<close>
  "digits_val s = foldl (\<lambda>n c. 10 * n + digit_val c) 0 s"

definition all_digits :: "string \<Rightarrow> bool" where
  "all_digits s \<longleftrightarrow> list_all is_digit s"

record pydate =
  year :: nat
  month :: nat
  day :: nat

definition is_leap :: "nat \<Rightarrow> bool" where
  "is_leap y \<longleftrightarrow> y mod 4 = 0 \<and> (y mod 100 \<noteq> 0 \<or> y mod 400 = 0)"

definition days_in_month :: "nat \<Rightarrow> nat \<Rightarrow> nat" where
  "days_in_month y m =
     (if m = 2 then (if is_leap y then 29 else 28)
      else if m = 4 \<or> m = 6 \<or> m = 9 \<or> m = 11 then 30 else 31)"

definition make_date :: "nat \<Rightarrow> nat \<Rightarrow> nat \<Rightarrow> pydate option" where
  \<comment> \<open>the range checks of the \<open>date\<close> constructor; \<open>None\<close> is its \<open>ValueError\<close>\<close>
  "make_date y m d =
     (if 1 \<le> y \<and> y \<le> 9999 \<and> 1 \<le> m \<and> m \<le> 12 \<and> 1 \<le> d \<and> d \<le> days_in_month y m
      then Some \<lparr>year = y, month = m, day = d\<rparr> else None)"

definition strftime_ymd :: "pydate \<Rightarrow> string" where
  \<comment> \<open>\<open>.strftime("%Y-%m-%d")\<close>, the year written with four digits as the library documents it\<close>
  "strftime_ymd dt =
     zero_pad 4 (str_nat (year dt)) @ ''-'' @ zero_pad 2 (str_nat (month dt)) @ ''-'' @
     zero_pad 2 (str_nat (day dt))"

definition hh_mm_ss_ff :: "string \<Rightarrow> (nat \<times> nat \<times> nat \<times> nat) option" where
  \<comment> \<open>a clock reading \<open>HH[:MM[:SS[.fff[fff]]]]\<close>: hours, minutes, seconds, microseconds\<close>
  "hh_mm_ss_ff s =
     (let n = length s; colon = CHR '':''; dot = CHR ''.'';
          hh = take 2 s; mm = take 2 (drop 3 s); ss = take 2 (drop 6 s); ff = drop 9 s
      in if n = 2 \<and> all_digits s then Some (digits_val hh, 0, 0, 0)
         else if n = 5 \<and> all_digits hh \<and> s ! 2 = colon \<and> all_digits mm
           then Some (digits_val hh, digits_val mm, 0, 0)
         else if n = 8 \<and> all_digits hh \<and> s ! 2 = colon \<and> all_digits mm \<and> s ! 5 = colon \<and>
                 all_digits ss
           then Some (digits_val hh, digits_val mm, digits_val ss, 0)
         else if (n = 12 \<or> n = 15) \<and> all_digits hh \<and> s ! 2 = colon \<and> all_digits mm \<and>
                 s ! 5 = colon \<and> all_digits ss \<and> s ! 8 = dot \<and> all_digits ff
           then Some (digits_val hh, digits_val mm, digits_val ss,
                      if n = 12 then digits_val ff * 1000 else digits_val ff)
         else None)"

definition isoformat_time_ok :: "string \<Rightarrow> bool" where
  \<comment> \<open>the time part \<open>HH[:MM[:SS[.fff[fff]]]][+HH:MM[:SS[.ffffff]]]\<close> of an ISO string is accepted\<close>
  "isoformat_time_ok t =
     (let is_sign = (\<lambda>c. c = CHR ''+'' \<or> c = CHR ''-'');
          clock = takeWhile (\<lambda>c. \<not> is_sign c) t;
          tz = dropWhile (\<lambda>c. \<not> is_sign c) t
      in case hh_mm_ss_ff clock of
           None \<Rightarrow> False
         | Some (h, mi, sec, us) \<Rightarrow>
             h < 24 \<and> mi < 60 \<and> sec < 60 \<and>
             (tz = [] \<or>
              (length tz \<in> {6, 9, 16} \<and>
               (case hh_mm_ss_ff (drop 1 tz) of
                  None \<Rightarrow> False
                | Some (zh, zm, zs, zus) \<Rightarrow> zh * 3600 + zm * 60 + zs < 86400))))"

definition fromisoformat :: "string \<Rightarrow> pydate option" where
  \<comment> \<open>\<open>datetime.fromisoformat\<close> on the grammar \<open>YYYY-MM-DD[*HH[:MM[:SS[.fff[fff]]]][+HH:MM[:SS[.ffffff]]]]\<close>
      of Python 3.7 to 3.10, keeping the date fields only (all that \<open>strftime("%Y-%m-%d")\<close>
      reads); \<open>None\<close> is its \<open>ValueError\<close>\<close>
  "fromisoformat s =
     (let d = take 10 s in
      if length s < 10 then None
      else if \<not> (all_digits (take 4 d) \<and> d ! 4 = CHR ''-'' \<and> all_digits (take 2 (drop 5 d)) \<and>
                 d ! 7 = CHR ''-'' \<and> all_digits (drop 8 d)) then None
      else if length s > 10 \<and> \<not> isoformat_time_ok (drop 11 s) then None
      else make_date (digits_val (take 4 d)) (digits_val (take 2 (drop 5 d))) (digits_val (drop 8 d)))"

definition replace_Z :: "string \<Rightarrow> string" where
  \<comment> \<open>\<open>.replace("Z", "+00:00")\<close>\<close>
  "replace_Z s = concat (map (\<lambda>c. if c = CHR ''Z'' then ''+00:00'' else [c]) s)"

subsection \<open>Normalising one activity\<close>

text \<open>The dict \<open>parse_activity\<close> returns.\<close>

record activity_record =
  rec_date :: string
  rec_distance :: rat
  rec_pace :: string
  rec_duration :: string
  rec_name :: string

definition pace_str :: "int \<Rightarrow> rat \<Rightarrow> string" where
  \<comment> \<open>the pace block of \<open>parse_activity\<close>: moving time in seconds, distance in the chosen unit\<close>
  "pace_str moving_time_s distance =
     (if 0 < distance then
        (let pace_total_seconds = of_int moving_time_s / distance;
             pace_min = py_int (py_floordiv pace_total_seconds 60);
             pace_sec = py_int (py_mod pace_total_seconds 60)
         in str_int pace_min @ '':'' @ fmt_02d pace_sec)
      else ''N/A'')"

definition duration_str :: "int \<Rightarrow> string" where
  "duration_str moving_time_s =
     (let hours = moving_time_s div 3600;
          mins = (moving_time_s mod 3600) div 60;
          secs = moving_time_s mod 60
      in if hours \<noteq> 0 then str_int hours @ '':'' @ fmt_02d mins @ '':'' @ fmt_02d secs
         else str_int mins @ '':'' @ fmt_02d secs)"

definition unit_distance :: "rat \<Rightarrow> string \<Rightarrow> rat" where
  "unit_distance distance_m units =
     (if units = ''miles'' then distance_m / (1609344 / 1000) else distance_m / 1000)"

definition parse_activity :: "activity \<Rightarrow> string \<Rightarrow> error + activity_record" where
  \<comment> \<open>the reads are in source order; \<open>activity["start_date"]\<close> is the default argument of
      \<open>activity.get("start_date_local", ...)\<close> and Python evaluates it before the call\<close>
  "parse_activity a units =
     (case raw_distance a of
        None \<Rightarrow> Inl (KeyError ''distance'')
      | Some distance_m \<Rightarrow>
     (case raw_moving_time a of
        None \<Rightarrow> Inl (KeyError ''moving_time'')
      | Some moving_time_s \<Rightarrow>
     (case raw_start_date a of
        None \<Rightarrow> Inl (KeyError ''start_date'')
      | Some start_date \<Rightarrow>
     (let distance = unit_distance distance_m units;
          start_local = (case raw_start_date_local a of None \<Rightarrow> start_date | Some l \<Rightarrow> l)
      in case fromisoformat (replace_Z start_local) of
           None \<Rightarrow> Inl (ValueError ''Invalid isoformat string'')
         | Some dt \<Rightarrow>
             Inr \<lparr>rec_date = strftime_ymd dt,
                  rec_distance = py_round2 distance,
                  rec_pace = pace_str moving_time_s distance,
                  rec_duration = duration_str moving_time_s,
                  rec_name = (case raw_name a of None \<Rightarrow> [] | Some n \<Rightarrow> n)\<rparr>))))"


subsection \<open>\<open>datetime.strptime\<close>\<close>

text \<open>
  \<open>strptime\<close> turns the format into a regular expression (a directive becomes a group of
  ordered alternatives, a run of whitespace becomes \<open>\s+\<close>, any other character stands for
  itself), compiles it with \<open>IGNORECASE\<close>, takes the first match at the start of the string
  in backtracking order, and raises \<open>ValueError\<close> if there is none or if the match does not
  end at the end of the string. The model keeps that order: a token maps a state (the fields
  read so far and the rest of the string) to the list of its possible continuations, most
  preferred first. Month names are those of the C locale.
\<close>

definition is_space :: "char \<Rightarrow> bool" where
  \<comment> \<open>\<open>str.isspace\<close> on the code points below 256\<close>
  "is_space c \<longleftrightarrow>
     (let n = (of_char c :: nat) in (9 \<le> n \<and> n \<le> 13) \<or> (28 \<le> n \<and> n \<le> 32) \<or> n = 133 \<or> n = 160)"

definition strip :: "string \<Rightarrow> string" where
  \<comment> \<open>\<open>str.strip()\<close>\<close>
  "strip s = rev (dropWhile is_space (rev (dropWhile is_space s)))"

definition lower :: "char \<Rightarrow> char" where
  \<comment> \<open>ASCII lower case\<close>
  "lower c =
     (case map_of (zip ''ABCDEFGHIJKLMNOPQRSTUVWXYZ'' ''abcdefghijklmnopqrstuvwxyz'') c of
        None \<Rightarrow> c
      | Some l \<Rightarrow> l)"

datatype token = Directive char | Literal char | Whitespace

fun compile_format :: "string \<Rightarrow> token list" where
  "compile_format [] = []"
| "compile_format [c] = (if is_space c then [Whitespace] else [Literal c])"
| "compile_format (c # d # rest) =
     (if c = CHR ''%'' then Directive d # compile_format rest
      else if is_space c then
        (if is_space d then compile_format (d # rest) else Whitespace # compile_format (d # rest))
      else Literal c # compile_format (d # rest))"

record fields =
  f_year :: nat
  f_month :: nat
  f_day :: nat

definition no_fields :: fields where
  \<comment> \<open>the defaults of \<open>_strptime\<close>\<close>
  "no_fields = \<lparr>f_year = 1900, f_month = 1, f_day = 1\<rparr>"

definition in_range :: "char \<Rightarrow> char \<Rightarrow> char \<Rightarrow> bool" where
  \<comment> \<open>the character class \<open>[lo-hi]\<close>\<close>
  "in_range lo hi c \<longleftrightarrow> (of_char lo :: nat) \<le> of_char c \<and> (of_char c :: nat) \<le> of_char hi"

definition alt2 :: "(char \<Rightarrow> bool) \<Rightarrow> (char \<Rightarrow> bool) \<Rightarrow> string \<Rightarrow> (nat \<times> string) list" where
  \<comment> \<open>an alternative of two characters, read as a decimal number\<close>
  "alt2 p q s = (case s of a # b # rest \<Rightarrow> if p a \<and> q b then [(digits_val [a, b], rest)] else []
                          | _ \<Rightarrow> [])"

definition alt1 :: "(char \<Rightarrow> bool) \<Rightarrow> string \<Rightarrow> (nat \<times> string) list" where
  "alt1 p s = (case s of a # rest \<Rightarrow> if p a then [(digit_val a, rest)] else [] | _ \<Rightarrow> [])"

definition match_m :: "string \<Rightarrow> (nat \<times> string) list" where
  \<comment> \<open>\<open>1[0-2]|0[1-9]|[1-9]\<close>\<close>
  "match_m s =
     alt2 (\<lambda>c. c = CHR ''1'') (in_range CHR ''0'' CHR ''2'') s @
     alt2 (\<lambda>c. c = CHR ''0'') (in_range CHR ''1'' CHR ''9'') s @
     alt1 (in_range CHR ''1'' CHR ''9'') s"

definition match_d :: "string \<Rightarrow> (nat \<times> string) list" where
  \<comment> \<open>\<open>3[0-1]|[1-2]\d|0[1-9]|[1-9]| [1-9]\<close>\<close>
  "match_d s =
     alt2 (\<lambda>c. c = CHR ''3'') (in_range CHR ''0'' CHR ''1'') s @
     alt2 (in_range CHR ''1'' CHR ''2'') is_digit s @
     alt2 (\<lambda>c. c = CHR ''0'') (in_range CHR ''1'' CHR ''9'') s @
     alt1 (in_range CHR ''1'' CHR ''9'') s @
     (case s of a # b # rest \<Rightarrow>
        if a = CHR '' '' \<and> in_range CHR ''1'' CHR ''9'' b then [(digit_val b, rest)] else []
      | _ \<Rightarrow> [])"

definition f_month_names :: "string list" where
  "f_month_names = [''january'', ''february'', ''march'', ''april'', ''may'', ''june'', ''july'',
     ''august'', ''september'', ''october'', ''november'', ''december'']"

definition a_month_names :: "string list" where
  "a_month_names = [''jan'', ''feb'', ''mar'', ''apr'', ''may'', ''jun'', ''jul'', ''aug'', ''sep'',
     ''oct'', ''nov'', ''dec'']"

definition seq_to_re :: "string list \<Rightarrow> (nat \<times> string) list" where
  \<comment> \<open>the names with their month numbers, longest first; the sort is stable\<close>
  "seq_to_re names = rev (sort_key (\<lambda>(i, n). length n) (rev (zip [1 ..< length names + 1] names)))"

definition match_name :: "string list \<Rightarrow> string \<Rightarrow> (nat \<times> string) list" where
  "match_name names s =
     concat (map (\<lambda>(i, n). if map lower (take (length n) s) = n then [(i, drop (length n) s)] else [])
                 (seq_to_re names))"

definition match_token :: "token \<Rightarrow> fields \<times> string \<Rightarrow> (fields \<times> string) list" where
  "match_token t st =
     (let f = fst st; s = snd st in
      case t of
        Literal c \<Rightarrow> (case s of a # rest \<Rightarrow> if lower a = lower c then [(f, rest)] else [] | _ \<Rightarrow> [])
      | Whitespace \<Rightarrow>
          map (\<lambda>k. (f, drop k s)) (rev [1 ..< length (takeWhile is_space s) + 1])
      | Directive d \<Rightarrow>
          if d = CHR ''Y'' then
            (if 4 \<le> length s \<and> all_digits (take 4 s)
             then [(f\<lparr>f_year := digits_val (take 4 s)\<rparr>, drop 4 s)] else [])
          else if d = CHR ''y'' then
            (if 2 \<le> length s \<and> all_digits (take 2 s)
             then [(f\<lparr>f_year := (let y = digits_val (take 2 s)
                                   in if y \<le> 68 then y + 2000 else y + 1900)\<rparr>, drop 2 s)]
             else [])
          else if d = CHR ''m'' then map (\<lambda>(v, rest). (f\<lparr>f_month := v\<rparr>, rest)) (match_m s)
          else if d = CHR ''d'' then map (\<lambda>(v, rest). (f\<lparr>f_day := v\<rparr>, rest)) (match_d s)
          else if d = CHR ''B'' then
            map (\<lambda>(v, rest). (f\<lparr>f_month := v\<rparr>, rest)) (match_name f_month_names s)
          else if d = CHR ''b'' then
            map (\<lambda>(v, rest). (f\<lparr>f_month := v\<rparr>, rest)) (match_name a_month_names s)
          else [])"

fun match_tokens :: "token list \<Rightarrow> fields \<times> string \<Rightarrow> (fields \<times> string) list" where
  "match_tokens [] st = [st]"
| "match_tokens (t # ts) st = concat (map (match_tokens ts) (match_token t st))"

definition strptime :: "string \<Rightarrow> string \<Rightarrow> pydate option" where
  \<comment> \<open>\<open>datetime.strptime(data_string, format)\<close>, the date fields only; \<open>None\<close> is \<open>ValueError\<close>\<close>
  "strptime data_string format =
     (case match_tokens (compile_format format) (no_fields, data_string) of
        [] \<Rightarrow> None
      | (f, rest) # _ \<Rightarrow> if rest \<noteq> [] then None else make_date (f_year f) (f_month f) (f_day f))"

subsection \<open>Matching a date to a row\<close>

definition date_formats :: "string list" where
  "date_formats = [''%Y-%m-%d'', ''%m/%d/%Y'', ''%m/%d/%y'', ''%d/%m/%Y'', ''%B %d, %Y'', ''%b %d, %Y'']"

fun try_formats :: "string \<Rightarrow> string list \<Rightarrow> string" where
  \<comment> \<open>the \<open>for fmt in (...)\<close> loop of \<open>normalize_date\<close> and the \<open>return\<close> after it\<close>
  "try_formats val [] = strip val"
| "try_formats val (fmt # fmts) =
     (case strptime (strip val) fmt of
        Some dt \<Rightarrow> strftime_ymd dt
      | None \<Rightarrow> try_formats val fmts)"

definition normalize_date :: "string \<Rightarrow> string option" where
  \<comment> \<open>the result \<open>None\<close> is Python's \<open>None\<close>, returned for an empty cell\<close>
  "normalize_date val = (if val = [] then None else Some (try_formats val date_formats))"


subsection \<open>The worksheet\<close>

text \<open>
  The store is Google Sheets behind \<open>gspread\<close>. The model keeps what the program uses of it:
  a grid of displayed strings (the empty string for an empty cell) with a number of rows,
  \<open>col_values\<close> to read a column and \<open>update_cells\<close> to write a batch. A value is written
  with \<open>value_input_option='USER_ENTERED'\<close>, so the store decides what the cell displays
  afterwards; that decision is the parameter \<open>entered\<close>. Opening the spreadsheet and
  failures of the store are outside the model.
\<close>

datatype cell_value = Number rat | Text string

text \<open>\<open>gspread.Cell(row, col, value)\<close>\<close>

record cell =
  cell_row :: nat
  cell_col :: int
  cell_val :: cell_value

record worksheet =
  cells :: "nat \<times> int \<Rightarrow> string"
  row_count :: nat

definition col_values :: "worksheet \<Rightarrow> int \<Rightarrow> string list" where
  \<comment> \<open>the column from row 1 down to its last non-empty cell\<close>
  "col_values ws c =
     rev (dropWhile (\<lambda>v. v = []) (rev (map (\<lambda>i. cells ws (i + 1, c)) [0 ..< row_count ws])))"

definition update_cells :: "(cell_value \<Rightarrow> string) \<Rightarrow> cell list \<Rightarrow> worksheet \<Rightarrow> worksheet" where
  "update_cells entered batch ws =
     ws\<lparr>cells := fold (\<lambda>c g. g((cell_row c, cell_col c) := entered (cell_val c))) batch (cells ws)\<rparr>"

fun scan_rows :: "string list \<Rightarrow> string \<Rightarrow> nat \<Rightarrow> nat option" where
  \<comment> \<open>the \<open>for i, val in enumerate(date_values, start=1)\<close> loop of \<open>find_date_row\<close>\<close>
  "scan_rows [] date_str i = None"
| "scan_rows (val # vals) date_str i =
     (if normalize_date val = Some date_str then Some i else scan_rows vals date_str (i + 1))"

definition find_date_row :: "worksheet \<Rightarrow> string \<Rightarrow> int \<Rightarrow> nat option" where
  "find_date_row worksheet date_str date_col = scan_rows (col_values worksheet date_col) date_str 1"

subsection \<open>Writing the records\<close>

text \<open>The \<open>"sheet_mapping"\<close> section of config.json.\<close>

record sheet_mapping =
  sheet_name :: "string option"
  date_column :: "int option"
  distance_column :: "int option"
  pace_column :: "int option"
  duration_column :: "int option"
  notes_column :: "int option"

definition truthy_col :: "int option \<Rightarrow> bool" where
  \<comment> \<open>Python truth value of an int or \<open>None\<close>\<close>
  "truthy_col c = (case c of None \<Rightarrow> False | Some n \<Rightarrow> n \<noteq> 0)"

definition cells_to_update ::
  "int \<Rightarrow> int \<Rightarrow> int option \<Rightarrow> int option \<Rightarrow> nat \<Rightarrow> activity_record \<Rightarrow> cell list"
where
  "cells_to_update distance_col pace_col duration_col notes_col row act =
     [\<lparr>cell_row = row, cell_col = distance_col, cell_val = Number (rec_distance act)\<rparr>,
      \<lparr>cell_row = row, cell_col = pace_col, cell_val = Text (rec_pace act)\<rparr>] @
     (if truthy_col duration_col
      then [\<lparr>cell_row = row, cell_col = the duration_col, cell_val = Text (rec_duration act)\<rparr>]
      else []) @
     (if truthy_col notes_col \<and> rec_name act \<noteq> []
      then [\<lparr>cell_row = row, cell_col = the notes_col, cell_val = Text (rec_name act)\<rparr>]
      else [])"

text \<open>
  The state of the loop of \<open>update_sheet\<close>: the worksheet, the two results \<open>updates\<close> and
  \<open>skipped\<close>, and the batches handed to \<open>update_cells\<close> so far, in order.
\<close>

record sync_state =
  sheet :: worksheet
  updates :: nat
  skipped :: "string list"
  batches :: "cell list list"

definition sync_record ::
  "(cell_value \<Rightarrow> string) \<Rightarrow> int \<Rightarrow> int \<Rightarrow> int \<Rightarrow> int option \<Rightarrow> int option \<Rightarrow>
   sync_state \<Rightarrow> activity_record \<Rightarrow> sync_state"
where
  \<comment> \<open>one turn of the \<open>for act in activities_parsed\<close> loop\<close>
  "sync_record entered date_col distance_col pace_col duration_col notes_col st act =
     (case find_date_row (sheet st) (rec_date act) date_col of
        None \<Rightarrow> st\<lparr>skipped := skipped st @ [rec_date act]\<rparr>
      | Some row \<Rightarrow>
          (let batch = cells_to_update distance_col pace_col duration_col notes_col row act
           in st\<lparr>sheet := update_cells entered batch (sheet st),
                 updates := updates st + 1,
                 batches := batches st @ [batch]\<rparr>))"

definition update_sheet ::
  "(cell_value \<Rightarrow> string) \<Rightarrow> sheet_mapping \<Rightarrow> worksheet \<Rightarrow> activity_record list \<Rightarrow>
   error + sync_state"
where
  \<comment> \<open>\<open>worksheet\<close> is the sheet that \<open>open_sheet\<close> and \<open>spreadsheet.worksheet\<close> hand over\<close>
  "update_sheet entered mapping worksheet activities_parsed =
     (case date_column mapping of
        None \<Rightarrow> Inl (KeyError ''date_column'')
      | Some date_col \<Rightarrow>
     (case distance_column mapping of
        None \<Rightarrow> Inl (KeyError ''distance_column'')
      | Some distance_col \<Rightarrow>
     (case pace_column mapping of
        None \<Rightarrow> Inl (KeyError ''pace_column'')
      | Some pace_col \<Rightarrow>
          Inr (foldl (sync_record entered date_col distance_col pace_col
                        (duration_column mapping) (notes_column mapping))
                 \<lparr>sheet = worksheet, updates = 0, skipped = [], batches = []\<rparr>
                 activities_parsed))))"




section \<open>Post-states and example inputs used in the statements\<close>

text \<open>The state after a successful refresh: the three token fields replaced by those of the
  reply, the config saved, the request logged.\<close>

definition refreshed :: "tokens_json \<Rightarrow> token_request \<Rightarrow> token_world \<Rightarrow> token_world" where
  "refreshed body req w =
     (let cfg = (config w)\<lparr>access_token := tok_access_token body,
                           refresh_token := tok_refresh_token body,
                           token_expires_at := tok_expires_at body\<rparr>
      in \<lparr>config = cfg, saved = Some cfg, token_requests = token_requests w @ [req]\<rparr>)"

text \<open>An example credential with the expiry as a parameter, and a token endpoint that always
  answers with a fresh token.\<close>

definition example_config :: "int \<Rightarrow> strava_config" where
  "example_config e = \<lparr>client_id = Some ''12345'', client_secret = Some ''s3cret'',
     access_token = Some ''cached'', refresh_token = Some ''r0'', token_expires_at = Some e\<rparr>"

definition example_world :: "int \<Rightarrow> token_world" where
  "example_world e = \<lparr>config = example_config e, saved = None, token_requests = []\<rparr>"

definition example_token_server :: "token_request \<Rightarrow> tokens_json reply" where
  "example_token_server req =
     Response 200 \<lparr>tok_access_token = Some ''fresh'', tok_refresh_token = Some ''r1'',
                   tok_expires_at = Some 30000\<rparr>"

definition example_request :: token_request where
  "example_request = \<lparr>req_client_id = ''12345'', req_client_secret = ''s3cret'',
                req_grant_type = ''refresh_token'', req_refresh_token = ''r0''\<rparr>"

definition example_tokens :: tokens_json where
  "example_tokens = \<lparr>tok_access_token = Some ''fresh'', tok_refresh_token = Some ''r1'',
                   tok_expires_at = Some 30000\<rparr>"

text \<open>The raw activity of the end-to-end example of the specification, with a \<open>start_date\<close>;
  a server with one full page and one short page.\<close>

definition example_activity :: activity where
  "example_activity = \<lparr>raw_distance = Some 10000, raw_moving_time = Some 3000,
     raw_type = Some ''Run'', raw_start_date_local = Some ''2024-03-15T07:00:00Z'',
     raw_start_date = Some ''2024-03-15T06:00:00Z'', raw_name = Some ''Morning Run''\<rparr>"

definition example_pages :: "nat \<Rightarrow> activity list" where
  "example_pages p = (if p = 1 then replicate 50 example_activity
                      else if p = 2 then replicate 3 example_activity else [])"

definition example_activity_server :: "activities_request \<Rightarrow> activity list reply" where
  "example_activity_server req = Response 200 (example_pages (req_page req))"

text \<open>The same activity with exactly the keys the specification lists, and one with distance 0.\<close>

definition spec_example_activity :: activity where
  "spec_example_activity = \<lparr>raw_distance = Some 10000, raw_moving_time = Some 3000,
     raw_type = Some ''Run'', raw_start_date_local = Some ''2024-03-15T07:00:00Z'',
     raw_start_date = None, raw_name = Some ''Morning Run''\<rparr>"


text \<open>The columns a batch can touch under a mapping: distance and pace, and the duration and
  notes columns when their entries pass the truth test of the source.\<close>

definition written_cols :: "int \<Rightarrow> int \<Rightarrow> int option \<Rightarrow> int option \<Rightarrow> int list" where
  "written_cols distance_col pace_col duration_col notes_col =
     [distance_col, pace_col] @
     (if truthy_col duration_col then [the duration_col] else []) @
     (if truthy_col notes_col then [the notes_col] else [])"

text \<open>The position of a cell in the grid.\<close>

definition cell_pos :: "cell \<Rightarrow> nat \<times> int" where
  "cell_pos c = (cell_row c, cell_col c)"

text \<open>The batches a run writes when every record is looked up in the sheet as it was at the
  start: one per record whose date is matched.\<close>

definition planned_batches ::
  "worksheet \<Rightarrow> int \<Rightarrow> int \<Rightarrow> int \<Rightarrow> int option \<Rightarrow> int option \<Rightarrow> activity_record list \<Rightarrow> cell list list"
where
  "planned_batches ws date_col distance_col pace_col duration_col notes_col acts =
     concat (map (\<lambda>a. case find_date_row ws (rec_date a) date_col of
                          None \<Rightarrow> []
                        | Some row \<Rightarrow> [cells_to_update distance_col pace_col duration_col notes_col row a])
                 acts)"

text \<open>The dates of the records that find no row in that sheet.\<close>

definition unmatched_dates :: "worksheet \<Rightarrow> int \<Rightarrow> activity_record list \<Rightarrow> string list" where
  "unmatched_dates ws date_col acts =
     map rec_date (filter (\<lambda>a. find_date_row ws (rec_date a) date_col = None) acts)"

text \<open>An example store: text is shown as typed, a number (not negative) with two decimals.\<close>

fun example_entered :: "cell_value \<Rightarrow> string" where
  "example_entered (Text s) = s"
| "example_entered (Number q) =
     str_int \<lfloor>q\<rfloor> @ ''.'' @ zero_pad 2 (str_nat (nat (\<lfloor>q * 100\<rfloor> - 100 * \<lfloor>q\<rfloor>)))"

text \<open>An example mapping, and a sheet with a header row, one date in US form and one date
  that occurs twice, in two forms.\<close>

definition example_mapping :: sheet_mapping where
  "example_mapping = \<lparr>sheet_name = None, date_column = Some 1, distance_column = Some 5,
     pace_column = Some 6, duration_column = Some 7, notes_column = Some 8\<rparr>"

definition example_sheet :: worksheet where
  "example_sheet =
     \<lparr>cells = (\<lambda>k. [])((1, 1) := ''Date'', (2, 1) := ''3/15/2024'',
                        (3, 1) := ''March 16, 2024'', (4, 1) := ''2024-03-16''),
      row_count = 5\<rparr>"

text \<open>Example records: two of 16 March, the second without a name; one of 15 March; one of a
  date the sheet does not have. The mapping \<open>clashing_mapping\<close> names column 1 both as the
  date column and as the distance column.\<close>

definition run_record :: activity_record where
  "run_record = \<lparr>rec_date = ''2024-03-16'', rec_distance = 621 / 100, rec_pace = ''8:02'',
     rec_duration = ''50:00'', rec_name = ''Morning Run''\<rparr>"

definition nameless_record :: activity_record where
  "nameless_record = \<lparr>rec_date = ''2024-03-16'', rec_distance = 5, rec_pace = ''9:00'',
     rec_duration = ''45:00'', rec_name = []\<rparr>"

definition clashing_mapping :: sheet_mapping where
  "clashing_mapping = example_mapping\<lparr>distance_column := Some 1\<rparr>"

definition first_record :: activity_record where
  "first_record = \<lparr>rec_date = ''2024-03-15'', rec_distance = 621 / 100, rec_pace = ''8:02'',
     rec_duration = ''50:00'', rec_name = ''Morning Run''\<rparr>"

definition absent_record :: activity_record where
  "absent_record = \<lparr>rec_date = ''2024-01-01'', rec_distance = 3, rec_pace = ''10:00'',
     rec_duration = ''30:00'', rec_name = ''Jog''\<rparr>"

section \<open>Token freshness\<close>

lemma store_tokens_Inr:
  "fst (store_tokens body w) = Inr tok \<Longrightarrow>
   tok_access_token body = Some tok \<and> tok_refresh_token body \<noteq> None \<and> tok_expires_at body \<noteq> None"
  by (auto simp: store_tokens_def Let_def split: option.splits)

lemma store_tokens_ok:
  "tok_access_token body = Some a \<Longrightarrow> tok_refresh_token body = Some r \<Longrightarrow>
   tok_expires_at body = Some e \<Longrightarrow>
   store_tokens body w =
     (Inr a, \<lparr>config = (config w)\<lparr>access_token := Some a, refresh_token := Some r,
                                    token_expires_at := Some e\<rparr>,
              saved = Some ((config w)\<lparr>access_token := Some a, refresh_token := Some r,
                                        token_expires_at := Some e\<rparr>),
              token_requests = token_requests w\<rparr>)"
  by (simp add: store_tokens_def Let_def)

text \<open>
  Claim C1. If the stored expiry is more than 60 seconds after the clock reading,
  \<open>ensure_strava_token\<close> returns the cached access token and leaves the whole state as it
  was: no request is sent, nothing is written. Otherwise, with the credentials for the request
  present, exactly one refresh request carrying the stored refresh token is sent before
  anything is returned; a token that is returned is the access token of the reply, and the
  state is then the refreshed one; and a reply with a success status and the three token
  fields does make the function return that token.
\<close>

theorem ensure_strava_token_freshness:
  "(60 < of_int (expires_at_of (config w)) - now \<longrightarrow> access_token (config w) = Some t \<longrightarrow>
      ensure_strava_token server now w = (Inr t, w)) \<and>
   (\<not> 60 < of_int (expires_at_of (config w)) - now \<longrightarrow> refresh_request (config w) = Inr req \<longrightarrow>
      token_requests (snd (ensure_strava_token server now w)) = token_requests w @ [req] \<and>
      req_grant_type req = ''refresh_token'' \<and>
      Some (req_refresh_token req) = refresh_token (config w) \<and>
      (\<forall>tok. fst (ensure_strava_token server now w) = Inr tok \<longrightarrow>
         (\<exists>st body. server req = Response st body \<and> tok_access_token body = Some tok \<and>
            snd (ensure_strava_token server now w) = refreshed body req w)) \<and>
      (\<forall>st body a r e. server req = Response st body \<longrightarrow> \<not> (400 \<le> st \<and> st < 600) \<longrightarrow>
         tok_access_token body = Some a \<longrightarrow> tok_refresh_token body = Some r \<longrightarrow>
         tok_expires_at body = Some e \<longrightarrow>
         ensure_strava_token server now w = (Inr a, refreshed body req w)))"
proof (intro conjI impI allI)
  assume "60 < of_int (expires_at_of (config w)) - now" "access_token (config w) = Some t"
  then show "ensure_strava_token server now w = (Inr t, w)"
    by (simp add: ensure_strava_token_def Let_def less_diff_eq add.commute)
next
  assume slow: "\<not> 60 < of_int (expires_at_of (config w)) - now"
    and req: "refresh_request (config w) = Inr req"
  from slow have nf: "\<not> now < of_int (expires_at_of (config w) - 60)"
    by (simp add: less_diff_eq add.commute)
  show "token_requests (snd (ensure_strava_token server now w)) = token_requests w @ [req]"
    using nf req
    by (auto simp: ensure_strava_token_def Let_def store_tokens_def split: sum.splits option.splits)
  show "req_grant_type req = ''refresh_token''"
    using req by (auto simp: refresh_request_def split: option.splits)
  show "Some (req_refresh_token req) = refresh_token (config w)"
    using req by (auto simp: refresh_request_def split: option.splits)
  {
    fix tok
    assume r: "fst (ensure_strava_token server now w) = Inr tok"
    show "\<exists>st body. server req = Response st body \<and> tok_access_token body = Some tok \<and>
            snd (ensure_strava_token server now w) = refreshed body req w"
      using nf req r
      by (cases "server req")
         (auto simp: ensure_strava_token_def Let_def raise_for_status_def store_tokens_def
                     refreshed_def
               split: sum.splits option.splits if_splits)
  }
  {
    fix st body a r e
    assume "server req = Response st body" "\<not> (400 \<le> st \<and> st < 600)"
      "tok_access_token body = Some a" "tok_refresh_token body = Some r"
      "tok_expires_at body = Some e"
    then show "ensure_strava_token server now w = (Inr a, refreshed body req w)"
      using nf req
      by (simp add: ensure_strava_token_def Let_def raise_for_status_def store_tokens_ok
                    refreshed_def)
  }
qed


theorem ensure_strava_token_freshness_witness:
  "60 < of_int (expires_at_of (config (example_world 4600))) - (1000 :: rat) \<and>
   ensure_strava_token example_token_server 1000 (example_world 4600)
     = (Inr ''cached'', example_world 4600) \<and>
   \<not> 60 < of_int (expires_at_of (config (example_world 1030))) - (1000 :: rat) \<and>
   ensure_strava_token example_token_server 1000 (example_world 1030)
     = (Inr ''fresh'', refreshed example_tokens example_request (example_world 1030)) \<and>
   token_requests (refreshed example_tokens example_request (example_world 1030)) = [example_request] \<and>
   access_token (config (refreshed example_tokens example_request (example_world 1030))) = Some ''fresh''"
proof -
  have fresh: "60 < of_int (expires_at_of (config (example_world 4600))) - (1000 :: rat)"
    by (simp add: example_world_def example_config_def expires_at_of_def)
  have cached: "access_token (config (example_world 4600)) = Some ''cached''"
    by (simp add: example_world_def example_config_def)
  have stale: "\<not> 60 < of_int (expires_at_of (config (example_world 1030))) - (1000 :: rat)"
    by (simp add: example_world_def example_config_def expires_at_of_def)
  have req: "refresh_request (config (example_world 1030)) = Inr example_request"
    by (simp add: example_world_def example_config_def refresh_request_def example_request_def)
  have srv: "example_token_server example_request = Response 200 example_tokens"
    by (simp add: example_token_server_def example_tokens_def)
  have ok: "\<not> (400 \<le> (200::nat) \<and> (200::nat) < 600)" by simp
  have f1: "tok_access_token example_tokens = Some ''fresh''"
    and f2: "tok_refresh_token example_tokens = Some ''r1''"
    and f3: "tok_expires_at example_tokens = Some 30000"
    by (simp_all add: example_tokens_def)
  note thm1 = ensure_strava_token_freshness
                [of "example_world 4600" 1000 "''cached''" example_token_server example_request]
  note thm2 = ensure_strava_token_freshness
                [of "example_world 1030" 1000 "''cached''" example_token_server example_request]
  from thm1 fresh cached
  have r1: "ensure_strava_token example_token_server 1000 (example_world 4600)
              = (Inr ''cached'', example_world 4600)"
    by blast
  from thm2 stale req srv ok f1 f2 f3
  have r2: "ensure_strava_token example_token_server 1000 (example_world 1030)
              = (Inr ''fresh'', refreshed example_tokens example_request (example_world 1030))"
    by blast
  have r3: "token_requests (refreshed example_tokens example_request (example_world 1030)) = [example_request]"
    by (simp add: refreshed_def example_world_def Let_def)
  have r4: "access_token (config (refreshed example_tokens example_request (example_world 1030))) = Some ''fresh''"
    by (simp add: refreshed_def example_tokens_def Let_def)
  from fresh r1 stale r2 r3 r4 show ?thesis by blast
qed

section \<open>Pagination\<close>

lemma fetch_pages_short:
  assumes "raise_for_status (server (page_request token after p)) = Inr batch"
    and "length batch < per_page"
  shows "fetch_pages server token after p acc sent =
           Some (Inr (acc @ batch), sent @ [page_request token after p])"
  using assms by (subst fetch_pages.simps) (simp add: Let_def)

lemma fetch_pages_full:
  assumes "raise_for_status (server (page_request token after p)) = Inr batch"
    and "length batch = per_page"
  shows "fetch_pages server token after p acc sent =
           fetch_pages server token after (p + 1) (acc @ batch) (sent @ [page_request token after p])"
proof -
  from assms(2) have "batch \<noteq> []" by (auto simp: per_page_def)
  with assms show ?thesis by (subst fetch_pages.simps) (simp add: Let_def)
qed

lemma fetch_pages_run:
  assumes "\<forall>q. p \<le> q \<and> q < p + j \<longrightarrow>
             raise_for_status (server (page_request token after q)) = Inr (pages q) \<and>
             length (pages q) = per_page"
    and "raise_for_status (server (page_request token after (p + j))) = Inr (pages (p + j))"
    and "length (pages (p + j)) < per_page"
  shows "fetch_pages server token after p acc sent =
           Some (Inr (acc @ concat (map pages [p ..< p + j + 1])),
                 sent @ map (page_request token after) [p ..< p + j + 1])"
  using assms
proof (induction j arbitrary: p acc sent)
  case 0
  then show ?case by (simp add: fetch_pages_short)
next
  case (Suc j)
  have here: "raise_for_status (server (page_request token after p)) = Inr (pages p)"
    "length (pages p) = per_page"
    using Suc.prems(1) by auto
  have step: "fetch_pages server token after p acc sent =
      fetch_pages server token after (p + 1) (acc @ pages p) (sent @ [page_request token after p])"
    using here by (rule fetch_pages_full)
  have rest: "fetch_pages server token after (p + 1) (acc @ pages p)
                (sent @ [page_request token after p]) =
      Some (Inr ((acc @ pages p) @ concat (map pages [p + 1 ..< p + 1 + j + 1])),
            (sent @ [page_request token after p]) @
              map (page_request token after) [p + 1 ..< p + 1 + j + 1])"
  proof (rule Suc.IH)
    show "\<forall>q. p + 1 \<le> q \<and> q < p + 1 + j \<longrightarrow>
            raise_for_status (server (page_request token after q)) = Inr (pages q) \<and>
            length (pages q) = per_page"
      using Suc.prems(1) by auto
    show "raise_for_status (server (page_request token after (p + 1 + j))) = Inr (pages (p + 1 + j))"
      using Suc.prems(2) by simp
    show "length (pages (p + 1 + j)) < per_page"
      using Suc.prems(3) by simp
  qed
  have up: "[p ..< p + Suc j + 1] = p # [p + 1 ..< p + 1 + j + 1]"
    by (simp add: upt_conv_Cons)
  show ?case unfolding step rest up by simp
qed

lemma length_concat_full:
  "\<forall>q \<in> set qs. length (pages q) = n \<Longrightarrow> length (concat (map pages qs)) = length qs * n"
  by (induction qs) auto

text \<open>
  Claim C4. When the server answers pages 1 to \<open>k\<close> with exactly 50 items each and page
  \<open>k + 1\<close> with fewer than 50, the loop of \<open>fetch_activities\<close> returns (it is not the
  run that goes on for ever), it has sent exactly the \<open>k + 1\<close> requests for the pages 1 to
  \<open>k + 1\<close> in that order and none after the short page, and the raw activities it has
  accumulated are the pages in order, \<open>k * 50\<close> plus the length of the short page in
  number; \<open>fetch_activities\<close> returns them, filtered by type when a type is given.
\<close>

theorem fetch_activities_pagination:
  assumes "\<forall>q. 1 \<le> q \<and> q \<le> k \<longrightarrow>
             raise_for_status (server (page_request token after q)) = Inr (pages q) \<and>
             length (pages q) = 50"
    and "raise_for_status (server (page_request token after (k + 1))) = Inr (pages (k + 1))"
    and "length (pages (k + 1)) < 50"
  shows "\<exists>raw sent.
           fetch_pages server token after 1 [] [] = Some (Inr raw, sent) \<and>
           sent = map (page_request token after) [1 ..< k + 2] \<and>
           map req_page sent = [1 ..< k + 2] \<and>
           length sent = k + 1 \<and>
           raw = concat (map pages [1 ..< k + 2]) \<and>
           length raw = k * 50 + length (pages (k + 1)) \<and>
           fetch_activities server token after activity_type =
             Some (Inr (if truthy_str activity_type
                        then filter (\<lambda>a. raw_type a = activity_type) raw else raw), sent)"
proof -
  let ?raw = "concat (map pages [1 ..< k + 2])"
  let ?sent = "map (page_request token after) [1 ..< k + 2]"
  have run: "fetch_pages server token after 1 [] [] = Some (Inr ?raw, ?sent)"
    using fetch_pages_run[of 1 k server token after pages "[]" "[]"] assms
    by (simp add: per_page_def)
  have pg: "map req_page ?sent = [1 ..< k + 2]"
    by (simp add: page_request_def comp_def)
  have "[1 ..< k + 2] = [1 ..< k + 1] @ [k + 1]" by simp
  then have "?raw = concat (map pages [1 ..< k + 1]) @ pages (k + 1)" by simp
  moreover have "length (concat (map pages [1 ..< k + 1])) = length [1 ..< k + 1] * 50"
    by (rule length_concat_full) (use assms(1) in auto)
  ultimately have len: "length ?raw = k * 50 + length (pages (k + 1))" by simp
  have fa: "fetch_activities server token after activity_type =
             Some (Inr (if truthy_str activity_type
                        then filter (\<lambda>a. raw_type a = activity_type) ?raw else ?raw), ?sent)"
    by (simp only: fetch_activities_def run option.case prod.case sum.case)
  from run pg len fa show ?thesis by simp
qed

theorem fetch_activities_pagination_witness:
  "raise_for_status (example_activity_server (page_request ''tok'' 1700000000 1))
     = Inr (example_pages 1) \<and>
   length (example_pages 1) = 50 \<and>
   raise_for_status (example_activity_server (page_request ''tok'' 1700000000 (1 + 1)))
     = Inr (example_pages (1 + 1)) \<and>
   length (example_pages (1 + 1)) < 50 \<and>
   (\<exists>raw sent.
      fetch_pages example_activity_server ''tok'' 1700000000 1 [] [] = Some (Inr raw, sent) \<and>
      map req_page sent = [1, 2] \<and> length raw = 53)"
proof -
  have p1: "raise_for_status (example_activity_server (page_request ''tok'' 1700000000 1))
              = Inr (example_pages 1)"
    by (simp add: raise_for_status_def example_activity_server_def page_request_def)
  have l1: "length (example_pages 1) = 50"
    by (simp add: example_pages_def)
  have h1: "\<forall>q. 1 \<le> q \<and> q \<le> (1::nat) \<longrightarrow>
      raise_for_status (example_activity_server (page_request ''tok'' 1700000000 q))
        = Inr (example_pages q) \<and> length (example_pages q) = 50"
    by (auto simp: raise_for_status_def example_activity_server_def page_request_def
                   example_pages_def)
  have h2: "raise_for_status (example_activity_server (page_request ''tok'' 1700000000 (1 + 1)))
     = Inr (example_pages (1 + 1))"
    by (simp add: raise_for_status_def example_activity_server_def page_request_def)
  have h3: "length (example_pages (1 + 1)) < 50"
    by (simp add: example_pages_def)
  have up: "[1 ..< 1 + 2] = [1::nat, 2]"
    by (simp add: upt_conv_Cons)
  from fetch_activities_pagination[OF h1 h2 h3, of None]
  have "\<exists>raw sent.
      fetch_pages example_activity_server ''tok'' 1700000000 1 [] [] = Some (Inr raw, sent) \<and>
      map req_page sent = [1, 2] \<and> length raw = 53"
    unfolding up by (auto simp: example_pages_def)
  with p1 l1 h2 h3 show ?thesis by blast
qed

section \<open>Normalising an activity\<close>

lemma str_nat_digit: "n < 10 \<Longrightarrow> str_nat n = [digit_char n]"
  by (simp add: str_nat.simps)

lemma str_nat_more: "10 \<le> n \<Longrightarrow> str_nat n = str_nat (n div 10) @ [digit_char n]"
  by (subst str_nat.simps) simp

lemmas eval_format = str_nat_digit str_nat_more digit_char_def str_int_def fmt_02d_def zero_pad_def

lemmas eval_digits = all_digits_def is_digit_def digits_val_def digit_val_def

lemma pace_example: "pace_str 3000 (unit_distance 10000 ''miles'') = ''8:02''"
proof -
  have d: "unit_distance 10000 ''miles'' = 78125 / 12573"
    by (simp add: unit_distance_def)
  have p: "of_int 3000 / (78125 / 12573 :: rat) = 301752 / 625"
    by simp
  have f: "\<lfloor>301752 / 625 / 60 :: rat\<rfloor> = 8"
    by (rule floor_unique) simp_all
  have m: "py_int (py_floordiv (301752 / 625) 60) = 8"
    unfolding py_floordiv_def f py_int_def by simp
  have r: "py_mod (301752 / 625) 60 = 1752 / 625"
    by (simp only: py_mod_def f)
  have g: "\<lfloor>1752 / 625 :: rat\<rfloor> = 2"
    by (rule floor_unique) simp_all
  have s: "py_int (py_mod (301752 / 625) 60) = 2"
    by (simp only: r py_int_def g) simp
  have "pace_str 3000 (78125 / 12573) = str_int 8 @ '':'' @ fmt_02d 2"
    by (simp only: pace_str_def p m s Let_def) simp
  then show ?thesis
    by (simp add: d eval_format)
qed

lemma duration_example: "duration_str 3000 = ''50:00''"
  by (simp add: duration_str_def Let_def eval_format)

lemma round_example: "py_round2 (unit_distance 10000 ''miles'') = 621 / 100"
proof -
  have d: "unit_distance 10000 ''miles'' * 100 = 7812500 / 12573"
    by (simp add: unit_distance_def)
  have f: "\<lfloor>7812500 / 12573 :: rat\<rfloor> = 621"
    by (rule floor_unique) simp_all
  have "round_half_even (7812500 / 12573) = 621"
    unfolding round_half_even_def f Let_def by simp
  then show ?thesis
    by (simp only: py_round2_def d)
qed

lemma date_example:
  "fromisoformat (replace_Z ''2024-03-15T07:00:00Z'') = Some \<lparr>year = 2024, month = 3, day = 15\<rparr>"
  by (simp add: fromisoformat_def replace_Z_def isoformat_time_ok_def hh_mm_ss_ff_def Let_def
                make_date_def days_in_month_def eval_digits)

lemma strftime_example: "strftime_ymd \<lparr>year = 2024, month = 3, day = 15\<rparr> = ''2024-03-15''"
  by (simp add: strftime_ymd_def eval_format)

text \<open>
  Claim C2, as amended. For the raw activity of the example (10000 m, 3000 s, type Run, local
  start 2024-03-15T07:00:00Z, name Morning Run, and a \<open>start_date\<close>) and miles as the
  unit, \<open>parse_activity\<close> gives the distance 6.21, the pace label 8:02, the duration label
  50:00 and the date 2024-03-15. The pace is the moving time divided by the distance before
  rounding, 10000 / 1609.344 miles, which is 482.8 seconds per mile.
\<close>

theorem parse_activity_example:
  "parse_activity example_activity ''miles'' =
     Inr \<lparr>rec_date = ''2024-03-15'', rec_distance = 621 / 100, rec_pace = ''8:02'',
          rec_duration = ''50:00'', rec_name = ''Morning Run''\<rparr> \<and>
   rec_pace (projr (parse_activity example_activity ''miles'')) =
     pace_str 3000 (10000 / (1609344 / 1000))"
proof -
  have p: "pace_str 3000 (10000 / (1609344 / 1000)) = ''8:02''"
    using pace_example by (simp add: unit_distance_def)
  have r: "parse_activity example_activity ''miles'' =
     Inr \<lparr>rec_date = ''2024-03-15'', rec_distance = 621 / 100, rec_pace = ''8:02'',
          rec_duration = ''50:00'', rec_name = ''Morning Run''\<rparr>"
    by (simp add: parse_activity_def example_activity_def Let_def pace_example duration_example
                  round_example date_example strftime_example)
  show ?thesis unfolding r p by simp
qed

text \<open>
  Claim C2 as stated fails: taken with exactly the five keys listed, the activity has no
  \<open>start_date\<close> and \<open>parse_activity\<close> raises \<open>KeyError\<close>; with a \<open>start_date\<close> added, the
  pace label is not 8:03.
\<close>

theorem parse_activity_example_counterexample:
  "parse_activity spec_example_activity ''miles'' = Inl (KeyError ''start_date'') \<and>
   rec_pace (projr (parse_activity example_activity ''miles'')) \<noteq> ''8:03''"
  by (simp add: parse_activity_def spec_example_activity_def example_activity_def Let_def
                pace_example date_example)











section \<open>Reconciliation with the worksheet\<close>

lemma trim_split:
  "\<exists>rest. rev (dropWhile P (rev xs)) @ rest = xs \<and> (\<forall>x \<in> set rest. P x)"
proof -
  have "rev xs = takeWhile P (rev xs) @ dropWhile P (rev xs)" by simp
  then have "rev (rev xs) = rev (takeWhile P (rev xs) @ dropWhile P (rev xs))" by (rule arg_cong)
  then have "rev (dropWhile P (rev xs)) @ rev (takeWhile P (rev xs)) = xs"
    by (simp only: rev_append rev_rev_ident)
  moreover have "\<forall>x \<in> set (rev (takeWhile P (rev xs))). P x"
    by (auto dest: set_takeWhileD)
  ultimately show ?thesis by blast
qed

lemma append_nth_outside:
  assumes "i < length (t @ rest)" and "\<forall>x \<in> set rest. P x" and "\<not> P ((t @ rest) ! i)"
  shows "i < length t"
proof (rule ccontr)
  assume "\<not> i < length t"
  then have "(t @ rest) ! i = rest ! (i - length t)" and "i - length t < length rest"
    using assms(1) by (auto simp: nth_append)
  then have "P ((t @ rest) ! i)" using assms(2) by simp
  with assms(3) show False by simp
qed

lemma trim_nth:
  assumes "i < length xs" and "\<not> P (xs ! i)"
  shows "i < length (rev (dropWhile P (rev xs)))"
    and "rev (dropWhile P (rev xs)) ! i = xs ! i"
proof -
  define t where "t = rev (dropWhile P (rev xs))"
  from trim_split[of P xs]
  obtain rest where s: "t @ rest = xs" and r: "\<forall>x \<in> set rest. P x"
    unfolding t_def by (elim exE conjE)
  have lt: "i < length t"
    using append_nth_outside[of i t rest P] assms r by (simp add: s)
  have "t ! i = (t @ rest) ! i" using lt by (simp add: nth_append)
  then have eq: "t ! i = xs ! i" by (simp add: s)
  from lt show "i < length (rev (dropWhile P (rev xs)))" by (simp add: t_def)
  from eq show "rev (dropWhile P (rev xs)) ! i = xs ! i" by (simp add: t_def)
qed

lemma trim_prefix:
  assumes "i < length (rev (dropWhile P (rev xs)))"
  shows "i < length xs" and "rev (dropWhile P (rev xs)) ! i = xs ! i"
proof -
  define t where "t = rev (dropWhile P (rev xs))"
  from trim_split[of P xs]
  obtain rest where s: "t @ rest = xs"
    unfolding t_def by (elim exE conjE)
  have lt: "i < length t" using assms by (simp add: t_def)
  have "length xs = length t + length rest" using s by (metis length_append)
  with lt show "i < length xs" by simp
  have "t ! i = (t @ rest) ! i" using lt by (simp add: nth_append)
  then have "t ! i = xs ! i" by (simp add: s)
  then show "rev (dropWhile P (rev xs)) ! i = xs ! i" by (simp add: t_def)
qed

lemma col_values_nth:
  assumes "i < length (col_values ws c)"
  shows "i < row_count ws" and "col_values ws c ! i = cells ws (i + 1, c)"
proof -
  let ?xs = "map (\<lambda>i. cells ws (i + 1, c)) [0 ..< row_count ws]"
  have a: "i < length ?xs" and b: "col_values ws c ! i = ?xs ! i"
    using assms trim_prefix[of i "\<lambda>v. v = []" ?xs] by (simp_all add: col_values_def)
  from a show lt: "i < row_count ws" by simp
  then show "col_values ws c ! i = cells ws (i + 1, c)" using b by simp
qed

lemma col_values_covers:
  assumes "1 \<le> r" and "r \<le> row_count ws" and "cells ws (r, c) \<noteq> []"
  shows "r - 1 < length (col_values ws c)" and "col_values ws c ! (r - 1) = cells ws (r, c)"
proof -
  let ?xs = "map (\<lambda>i. cells ws (i + 1, c)) [0 ..< row_count ws]"
  have lt: "r - 1 < row_count ws" using assms by simp
  have a: "r - 1 < length ?xs" using lt by simp
  have b: "?xs ! (r - 1) = cells ws (r, c)" using lt assms(1) by simp
  from trim_nth[of "r - 1" ?xs "\<lambda>v. v = []"] a b assms(3)
  show "r - 1 < length (col_values ws c)" and "col_values ws c ! (r - 1) = cells ws (r, c)"
    by (simp_all add: col_values_def)
qed

lemma scan_rows_SomeD:
  "scan_rows vals d k = Some r \<Longrightarrow>
   k \<le> r \<and> r < k + length vals \<and> normalize_date (vals ! (r - k)) = Some d \<and>
   (\<forall>q < r - k. normalize_date (vals ! q) \<noteq> Some d)"
proof (induction vals arbitrary: k)
  case Nil
  then show ?case by simp
next
  case (Cons v vals)
  show ?case
  proof (cases "normalize_date v = Some d")
    case True
    with Cons.prems show ?thesis by simp
  next
    case False
    with Cons.prems have "scan_rows vals d (k + 1) = Some r" by simp
    from Cons.IH[OF this] have ih: "k + 1 \<le> r" "r < k + 1 + length vals"
      "normalize_date (vals ! (r - (k + 1))) = Some d"
      "\<forall>q < r - (k + 1). normalize_date (vals ! q) \<noteq> Some d" by auto
    have rk: "r - k = Suc (r - (k + 1))" using ih(1) by simp
    have here: "normalize_date ((v # vals) ! (r - k)) = Some d"
      using ih(3) by (simp add: rk)
    have before: "normalize_date ((v # vals) ! q) \<noteq> Some d" if "q < r - k" for q
    proof (cases q)
      case 0
      then show ?thesis using False by simp
    next
      case (Suc q')
      with that rk have "q' < r - (k + 1)" by simp
      with ih(4) Suc show ?thesis by simp
    qed
    from ih(1,2) here before show ?thesis by simp
  qed
qed

lemma scan_rows_found:
  "i < length vals \<Longrightarrow> normalize_date (vals ! i) = Some d \<Longrightarrow>
   \<exists>r. scan_rows vals d k = Some r \<and> r \<le> k + i"
proof (induction vals arbitrary: k i)
  case Nil
  then show ?case by simp
next
  case (Cons v vals)
  show ?case
  proof (cases "normalize_date v = Some d")
    case True
    then show ?thesis by simp
  next
    case False
    with Cons.prems obtain j where j: "i = Suc j" by (cases i) auto
    with Cons.prems have "j < length vals" "normalize_date (vals ! j) = Some d" by auto
    from Cons.IH[OF this, of "k + 1"] False j show ?thesis by auto
  qed
qed

lemma find_date_row_SomeD:
  assumes "find_date_row ws d dc = Some r"
  shows "1 \<le> r" and "r \<le> row_count ws" and "normalize_date (cells ws (r, dc)) = Some d"
    and "\<forall>q. 1 \<le> q \<and> q < r \<longrightarrow> normalize_date (cells ws (q, dc)) \<noteq> Some d"
proof -
  from assms have s: "scan_rows (col_values ws dc) d 1 = Some r"
    by (simp add: find_date_row_def)
  from scan_rows_SomeD[OF s]
  have a: "1 \<le> r" "r - 1 < length (col_values ws dc)"
    "normalize_date (col_values ws dc ! (r - 1)) = Some d"
    "\<forall>q < r - 1. normalize_date (col_values ws dc ! q) \<noteq> Some d" by auto
  show "1 \<le> r" by fact
  from col_values_nth[OF a(2)] a(1) have b: "r \<le> row_count ws"
    "col_values ws dc ! (r - 1) = cells ws (r, dc)" by auto
  show "r \<le> row_count ws" by fact
  show "normalize_date (cells ws (r, dc)) = Some d" using a(3) b(2) by simp
  show "\<forall>q. 1 \<le> q \<and> q < r \<longrightarrow> normalize_date (cells ws (q, dc)) \<noteq> Some d"
  proof (intro allI impI)
    fix q assume q: "1 \<le> q \<and> q < r"
    then have lt: "q - 1 < r - 1" by auto
    then have "q - 1 < length (col_values ws dc)" using a(2) by simp
    from col_values_nth(2)[OF this] q
    have "col_values ws dc ! (q - 1) = cells ws (q, dc)" by simp
    with a(4) lt show "normalize_date (cells ws (q, dc)) \<noteq> Some d" by metis
  qed
qed

lemma find_date_row_found:
  assumes "1 \<le> i" and "i \<le> row_count ws" and "normalize_date (cells ws (i, dc)) = Some d"
  shows "\<exists>r. find_date_row ws d dc = Some r \<and> r \<le> i"
proof -
  from assms(3) have ne: "cells ws (i, dc) \<noteq> []" by (auto simp: normalize_date_def)
  from col_values_covers[OF assms(1,2) ne] assms(3)
  have "i - 1 < length (col_values ws dc)"
    "normalize_date (col_values ws dc ! (i - 1)) = Some d" by simp_all
  from scan_rows_found[OF this, of 1] assms(1) show ?thesis
    by (auto simp: find_date_row_def)
qed

lemma find_date_row_cong:
  assumes "row_count ws' = row_count ws" and "\<forall>r. cells ws' (r, dc) = cells ws (r, dc)"
  shows "find_date_row ws' d dc = find_date_row ws d dc"
  using assms by (simp add: find_date_row_def col_values_def)

lemma fold_write_outside:
  "k \<notin> cell_pos ` set B \<Longrightarrow>
   fold (\<lambda>c g. g((cell_row c, cell_col c) := e (cell_val c))) B g k = g k"
  by (induction B arbitrary: g) (auto simp: cell_pos_def)


lemma row_count_update_cells: "row_count (update_cells e B ws) = row_count ws"
  by (simp add: update_cells_def)

lemma cells_update_cells_outside:
  "k \<notin> cell_pos ` set B \<Longrightarrow> cells (update_cells e B ws) k = cells ws k"
  by (simp add: update_cells_def fold_write_outside)



lemma cells_to_update_pos:
  "c \<in> set (cells_to_update xc pc du nc row a) \<Longrightarrow>
   cell_row c = row \<and> cell_col c \<in> set (written_cols xc pc du nc)"
  by (auto simp: cells_to_update_def written_cols_def split: if_splits)


lemma sync_record_unmatched:
  "find_date_row (sheet st) (rec_date a) dc = None \<Longrightarrow>
   sync_record e dc xc pc du nc st a = st\<lparr>skipped := skipped st @ [rec_date a]\<rparr>"
  by (simp add: sync_record_def)

lemma sync_record_matched:
  "find_date_row (sheet st) (rec_date a) dc = Some row \<Longrightarrow>
   sync_record e dc xc pc du nc st a =
     st\<lparr>sheet := update_cells e (cells_to_update xc pc du nc row a) (sheet st),
        updates := updates st + 1,
        batches := batches st @ [cells_to_update xc pc du nc row a]\<rparr>"
  by (simp add: sync_record_def Let_def)

lemma update_cells_keeps_date_col:
  assumes "dc \<notin> set (written_cols xc pc du nc)"
  shows "cells (update_cells e (cells_to_update xc pc du nc row a) ws) (r, dc) = cells ws (r, dc)"
proof (rule cells_update_cells_outside)
  show "(r, dc) \<notin> cell_pos ` set (cells_to_update xc pc du nc row a)"
    using assms cells_to_update_pos[of _ xc pc du nc row a] by (auto simp: cell_pos_def)
qed

lemma sync_record_find:
  assumes "dc \<notin> set (written_cols xc pc du nc)"
  shows "find_date_row (sheet (sync_record e dc xc pc du nc st a)) d dc = find_date_row (sheet st) d dc"
proof (cases "find_date_row (sheet st) (rec_date a) dc")
  case None
  then show ?thesis by (simp add: sync_record_unmatched)
next
  case (Some row)
  show ?thesis
    unfolding sync_record_matched[OF Some]
    by (rule find_date_row_cong)
       (simp_all add: row_count_update_cells update_cells_keeps_date_col[OF assms])
qed

lemma planned_batches_cong:
  "(\<And>d. find_date_row ws' d dc = find_date_row ws d dc) \<Longrightarrow>
   planned_batches ws' dc xc pc du nc acts = planned_batches ws dc xc pc du nc acts"
  by (simp add: planned_batches_def)

lemma unmatched_dates_cong:
  "(\<And>d. find_date_row ws' d dc = find_date_row ws d dc) \<Longrightarrow>
   unmatched_dates ws' dc acts = unmatched_dates ws dc acts"
  by (simp add: unmatched_dates_def)

lemma run_frame:
  assumes "dc \<notin> set (written_cols xc pc du nc)"
  shows "batches (foldl (sync_record e dc xc pc du nc) st acts) =
           batches st @ planned_batches (sheet st) dc xc pc du nc acts \<and>
         skipped (foldl (sync_record e dc xc pc du nc) st acts) =
           skipped st @ unmatched_dates (sheet st) dc acts \<and>
         updates (foldl (sync_record e dc xc pc du nc) st acts) =
           updates st + length (planned_batches (sheet st) dc xc pc du nc acts) \<and>
         sheet (foldl (sync_record e dc xc pc du nc) st acts) =
           fold (update_cells e) (planned_batches (sheet st) dc xc pc du nc acts) (sheet st)"
proof (induction acts arbitrary: st)
  case Nil
  show ?case by (simp add: planned_batches_def unmatched_dates_def)
next
  case (Cons a acts)
  let ?st1 = "sync_record e dc xc pc du nc st a"
  have same: "\<And>d. find_date_row (sheet ?st1) d dc = find_date_row (sheet st) d dc"
    by (rule sync_record_find[OF assms])
  note ih = Cons.IH[of ?st1, unfolded planned_batches_cong[OF same] unmatched_dates_cong[OF same]]
  show ?case
  proof (cases "find_date_row (sheet st) (rec_date a) dc")
    case None
    have st1: "?st1 = st\<lparr>skipped := skipped st @ [rec_date a]\<rparr>"
      by (rule sync_record_unmatched[OF None])
    have p: "planned_batches (sheet st) dc xc pc du nc (a # acts) =
             planned_batches (sheet st) dc xc pc du nc acts"
      by (simp add: planned_batches_def None)
    have u: "unmatched_dates (sheet st) dc (a # acts) = rec_date a # unmatched_dates (sheet st) dc acts"
      by (simp add: unmatched_dates_def None)
    show ?thesis using ih by (simp add: p u st1)
  next
    case (Some row)
    let ?b = "cells_to_update xc pc du nc row a"
    have st1: "?st1 = st\<lparr>sheet := update_cells e ?b (sheet st), updates := updates st + 1,
                          batches := batches st @ [?b]\<rparr>"
      by (rule sync_record_matched[OF Some])
    have p: "planned_batches (sheet st) dc xc pc du nc (a # acts) =
             ?b # planned_batches (sheet st) dc xc pc du nc acts"
      by (simp add: planned_batches_def Some)
    have u: "unmatched_dates (sheet st) dc (a # acts) = unmatched_dates (sheet st) dc acts"
      by (simp add: unmatched_dates_def Some)
    have s1: "sheet ?st1 = update_cells e ?b (sheet st)" "batches ?st1 = batches st @ [?b]"
      "skipped ?st1 = skipped st" "updates ?st1 = updates st + 1"
      by (simp_all add: st1)
    show ?thesis using ih by (simp add: p u s1)
  qed
qed

lemmas eval_strptime = normalize_date_def date_formats_def strptime_def strip_def is_space_def
  match_token_def match_m_def match_d_def alt1_def alt2_def in_range_def lower_def no_fields_def
  make_date_def days_in_month_def is_leap_def strftime_ymd_def match_name_def

lemma normalize_us_example: "normalize_date ''3/15/2024'' = Some ''2024-03-15''"
  by (simp add: eval_strptime eval_digits eval_format Let_def)

lemma normalize_iso_example: "normalize_date ''2024-03-16'' = Some ''2024-03-16''"
  by (simp add: eval_strptime eval_digits eval_format Let_def)

lemma seq_to_re_f_month:
  "seq_to_re f_month_names =
     [(9, ''september''), (2, ''february''), (11, ''november''), (12, ''december''),
      (1, ''january''), (10, ''october''), (8, ''august''), (3, ''march''), (4, ''april''),
      (6, ''june''), (7, ''july''), (5, ''may'')]"
  by (simp add: seq_to_re_def f_month_names_def upt_rec)

lemma normalize_long_example: "normalize_date ''March 16, 2024'' = Some ''2024-03-16''"
  by (simp add: eval_strptime eval_digits eval_format Let_def seq_to_re_f_month)

lemma example_col_values:
  "col_values example_sheet 1 = [''Date'', ''3/15/2024'', ''March 16, 2024'', ''2024-03-16'']"
  by (simp add: col_values_def example_sheet_def upt_rec)

lemma normalize_header_example: "normalize_date ''Date'' = Some ''Date''"
  by (simp add: eval_strptime eval_digits eval_format Let_def seq_to_re_def f_month_names_def
                a_month_names_def upt_rec)

lemma example_find: "find_date_row example_sheet ''2024-03-16'' 1 = Some 3"
  by (simp add: find_date_row_def example_col_values normalize_header_example
                normalize_us_example normalize_long_example)

lemma update_sheet_columns:
  "date_column m = Some dc \<Longrightarrow> distance_column m = Some xc \<Longrightarrow> pace_column m = Some pc \<Longrightarrow>
   update_sheet e m ws acts =
     Inr (foldl (sync_record e dc xc pc (duration_column m) (notes_column m))
            \<lparr>sheet = ws, updates = 0, skipped = [], batches = []\<rparr> acts)"
  by (simp add: update_sheet_def)

lemma cells_to_update_explicit:
  "cells_to_update xc pc du nc row act =
     [\<lparr>cell_row = row, cell_col = xc, cell_val = Number (rec_distance act)\<rparr>,
      \<lparr>cell_row = row, cell_col = pc, cell_val = Text (rec_pace act)\<rparr>] @
     (case du of
        None \<Rightarrow> []
      | Some c \<Rightarrow> if c = 0 then []
                 else [\<lparr>cell_row = row, cell_col = c, cell_val = Text (rec_duration act)\<rparr>]) @
     (case nc of
        None \<Rightarrow> []
      | Some c \<Rightarrow> if c = 0 \<or> rec_name act = [] then []
                 else [\<lparr>cell_row = row, cell_col = c, cell_val = Text (rec_name act)\<rparr>])"
  by (simp add: cells_to_update_def truthy_col_def split: option.splits)

text \<open>
  Claim C5, as amended. For a record whose date is matched at a row, \<open>update_sheet\<close> hands
  \<open>update_cells\<close> exactly one batch. It holds the distance cell and the pace cell always, the
  duration cell exactly when \<open>duration_column\<close> is present and not 0, and the name cell
  exactly when \<open>notes_column\<close> is present and not 0 and the record's name is not empty.
  An absent optional column is no error: the field is not written.
\<close>

theorem update_sheet_batch:
  assumes "date_column m = Some dc" and "distance_column m = Some xc"
    and "pace_column m = Some pc"
    and "find_date_row ws (rec_date act) dc = Some row"
  shows "\<exists>st batch.
           update_sheet entered m ws [act] = Inr st \<and>
           batches st = [batch] \<and> sheet st = update_cells entered batch ws \<and>
           updates st = 1 \<and> skipped st = [] \<and>
           batch =
             [\<lparr>cell_row = row, cell_col = xc, cell_val = Number (rec_distance act)\<rparr>,
              \<lparr>cell_row = row, cell_col = pc, cell_val = Text (rec_pace act)\<rparr>] @
             (case duration_column m of
                None \<Rightarrow> []
              | Some c \<Rightarrow> if c = 0 then []
                  else [\<lparr>cell_row = row, cell_col = c, cell_val = Text (rec_duration act)\<rparr>]) @
             (case notes_column m of
                None \<Rightarrow> []
              | Some c \<Rightarrow> if c = 0 \<or> rec_name act = [] then []
                  else [\<lparr>cell_row = row, cell_col = c, cell_val = Text (rec_name act)\<rparr>])"
proof -
  let ?init = "\<lparr>sheet = ws, updates = 0, skipped = [], batches = []\<rparr>"
  let ?b = "cells_to_update xc pc (duration_column m) (notes_column m) row act"
  have f: "find_date_row (sheet ?init) (rec_date act) dc = Some row"
    using assms(4) by simp
  have "update_sheet entered m ws [act] =
          Inr (sync_record entered dc xc pc (duration_column m) (notes_column m) ?init act)"
    by (simp add: update_sheet_columns[OF assms(1-3)])
  then have "update_sheet entered m ws [act] =
          Inr \<lparr>sheet = update_cells entered ?b ws, updates = 1, skipped = [], batches = [?b]\<rparr>"
    by (simp add: sync_record_matched[OF f])
  then show ?thesis
    by (simp add: cells_to_update_explicit)
qed

theorem update_sheet_batch_witness:
  "date_column example_mapping = Some 1 \<and> distance_column example_mapping = Some 5 \<and>
   pace_column example_mapping = Some 6 \<and>
   find_date_row example_sheet (rec_date run_record) 1 = Some 3 \<and>
   (\<exists>st. update_sheet example_entered example_mapping example_sheet [run_record] = Inr st \<and>
      batches st =
        [[\<lparr>cell_row = 3, cell_col = 5, cell_val = Number (621 / 100)\<rparr>,
          \<lparr>cell_row = 3, cell_col = 6, cell_val = Text ''8:02''\<rparr>,
          \<lparr>cell_row = 3, cell_col = 7, cell_val = Text ''50:00''\<rparr>,
          \<lparr>cell_row = 3, cell_col = 8, cell_val = Text ''Morning Run''\<rparr>]])"
proof -
  have a: "date_column example_mapping = Some 1" and b: "distance_column example_mapping = Some 5"
    and c: "pace_column example_mapping = Some 6"
    by (simp_all add: example_mapping_def)
  have f: "find_date_row example_sheet (rec_date run_record) 1 = Some 3"
    by (simp add: run_record_def example_find)
  from update_sheet_batch[OF a b c f, of example_entered]
  have "\<exists>st. update_sheet example_entered example_mapping example_sheet [run_record] = Inr st \<and>
      batches st =
        [[\<lparr>cell_row = 3, cell_col = 5, cell_val = Number (621 / 100)\<rparr>,
          \<lparr>cell_row = 3, cell_col = 6, cell_val = Text ''8:02''\<rparr>,
          \<lparr>cell_row = 3, cell_col = 7, cell_val = Text ''50:00''\<rparr>,
          \<lparr>cell_row = 3, cell_col = 8, cell_val = Text ''Morning Run''\<rparr>]]"
    by (auto simp: example_mapping_def run_record_def)
  with a b c f show ?thesis by blast
qed

text \<open>
  Claim C5 as stated fails: with \<open>notes_column\<close> configured and a record whose name is
  empty, the batch of the matched record has no name cell.
\<close>

theorem update_sheet_batch_counterexample:
  "notes_column example_mapping = Some 8 \<and>
   find_date_row example_sheet (rec_date nameless_record) 1 = Some 3 \<and>
   batches (projr (update_sheet example_entered example_mapping example_sheet [nameless_record])) =
     [[\<lparr>cell_row = 3, cell_col = 5, cell_val = Number 5\<rparr>,
       \<lparr>cell_row = 3, cell_col = 6, cell_val = Text ''9:00''\<rparr>,
       \<lparr>cell_row = 3, cell_col = 7, cell_val = Text ''45:00''\<rparr>]]"
proof -
  have f: "find_date_row example_sheet (rec_date nameless_record) 1 = Some 3"
    by (simp add: nameless_record_def example_find)
  have "update_sheet example_entered example_mapping example_sheet [nameless_record] =
          Inr (sync_record example_entered 1 5 6 (Some 7) (Some 8)
                 \<lparr>sheet = example_sheet, updates = 0, skipped = [], batches = []\<rparr> nameless_record)"
    by (simp add: update_sheet_def example_mapping_def)
  moreover have "batches (sync_record example_entered 1 5 6 (Some 7) (Some 8)
                 \<lparr>sheet = example_sheet, updates = 0, skipped = [], batches = []\<rparr> nameless_record) =
     [[\<lparr>cell_row = 3, cell_col = 5, cell_val = Number 5\<rparr>,
       \<lparr>cell_row = 3, cell_col = 6, cell_val = Text ''9:00''\<rparr>,
       \<lparr>cell_row = 3, cell_col = 7, cell_val = Text ''45:00''\<rparr>]]"
    using f by (simp add: sync_record_def Let_def cells_to_update_def truthy_col_def
                          nameless_record_def)
  ultimately show ?thesis using f by (simp add: example_mapping_def)
qed

text \<open>
  Claim C6. When two rows \<open>i < j\<close> of the date column both normalise to the record's date,
  the scan returns a row \<open>r \<le> i\<close>, the first row that normalises to that date; the one
  batch written for the record has all its cells in row \<open>r\<close>; every cell of every other row,
  row \<open>j\<close> among them, is as before. The same holds for the turn of the loop on that record
  in any state of a run whose sheet is this one.
\<close>

theorem first_match_wins:
  assumes "date_column m = Some dc" and "distance_column m = Some xc"
    and "pace_column m = Some pc"
    and "1 \<le> i" and "i < j" and "j \<le> row_count ws"
    and "normalize_date (cells ws (i, dc)) = Some (rec_date act)"
    and "normalize_date (cells ws (j, dc)) = Some (rec_date act)"
  shows "\<exists>r st.
           find_date_row ws (rec_date act) dc = Some r \<and> 1 \<le> r \<and> r \<le> i \<and> r < j \<and>
           normalize_date (cells ws (r, dc)) = Some (rec_date act) \<and>
           (\<forall>q. 1 \<le> q \<and> q < r \<longrightarrow> normalize_date (cells ws (q, dc)) \<noteq> Some (rec_date act)) \<and>
           update_sheet entered m ws [act] = Inr st \<and>
           batches st = [cells_to_update xc pc (duration_column m) (notes_column m) r act] \<and>
           (\<forall>c \<in> set (concat (batches st)). cell_row c = r) \<and>
           (\<forall>q col. q \<noteq> r \<longrightarrow> cells (sheet st) (q, col) = cells ws (q, col)) \<and>
           (\<forall>col. cells (sheet st) (j, col) = cells ws (j, col)) \<and>
           (\<forall>st0. sheet st0 = ws \<longrightarrow>
              sync_record entered dc xc pc (duration_column m) (notes_column m) st0 act =
                st0\<lparr>sheet := update_cells entered
                                (cells_to_update xc pc (duration_column m) (notes_column m) r act) ws,
                    updates := updates st0 + 1,
                    batches := batches st0 @
                                [cells_to_update xc pc (duration_column m) (notes_column m) r act]\<rparr>)"
proof -
  have "i \<le> row_count ws" using assms(5,6) by simp
  from find_date_row_found[OF assms(4) this assms(7)]
  obtain r where r: "find_date_row ws (rec_date act) dc = Some r" and ri: "r \<le> i" by blast
  note d = find_date_row_SomeD[OF r]
  let ?b = "cells_to_update xc pc (duration_column m) (notes_column m) r act"
  let ?st = "\<lparr>sheet = update_cells entered ?b ws, updates = 1, skipped = [], batches = [?b]\<rparr>"
  have run: "update_sheet entered m ws [act] = Inr ?st"
    using r by (simp add: update_sheet_columns[OF assms(1-3)] sync_record_matched)
  have rows: "\<forall>c \<in> set (concat (batches ?st)). cell_row c = r"
    using cells_to_update_pos by auto
  have frame: "cells (sheet ?st) (q, col) = cells ws (q, col)" if "q \<noteq> r" for q col
  proof -
    have "(q, col) \<notin> cell_pos ` set ?b"
      using that cells_to_update_pos[of _ xc pc "duration_column m" "notes_column m" r act]
      by (auto simp: cell_pos_def)
    then show ?thesis by (simp add: cells_update_cells_outside)
  qed
  have rj: "r < j" using ri assms(5) by simp
  then have later: "\<forall>col. cells (sheet ?st) (j, col) = cells ws (j, col)"
    using frame by simp
  have body: "\<forall>st0. sheet st0 = ws \<longrightarrow>
              sync_record entered dc xc pc (duration_column m) (notes_column m) st0 act =
                st0\<lparr>sheet := update_cells entered ?b ws, updates := updates st0 + 1,
                    batches := batches st0 @ [?b]\<rparr>"
    using r by (auto simp: sync_record_matched)
  from r d(1) ri rj d(3) d(4) run rows frame later body show ?thesis
    by (intro exI[of _ r] exI[of _ ?st]) simp
qed

theorem first_match_wins_witness:
  "date_column example_mapping = Some 1 \<and> distance_column example_mapping = Some 5 \<and>
   pace_column example_mapping = Some 6 \<and> (1::nat) \<le> 3 \<and> (3::nat) < 4 \<and>
   4 \<le> row_count example_sheet \<and>
   normalize_date (cells example_sheet (3, 1)) = Some (rec_date run_record) \<and>
   normalize_date (cells example_sheet (4, 1)) = Some (rec_date run_record) \<and>
   find_date_row example_sheet (rec_date run_record) 1 = Some 3 \<and>
   (\<exists>st. update_sheet example_entered example_mapping example_sheet [run_record] = Inr st \<and>
      (\<forall>c \<in> set (concat (batches st)). cell_row c = 3) \<and>
      (\<forall>col. cells (sheet st) (4, col) = cells example_sheet (4, col)))"
proof -
  have a: "date_column example_mapping = Some 1" and b: "distance_column example_mapping = Some 5"
    and c: "pace_column example_mapping = Some 6"
    by (simp_all add: example_mapping_def)
  have i: "(1::nat) \<le> 3" and ij: "(3::nat) < 4" by simp_all
  have j: "4 \<le> row_count example_sheet" by (simp add: example_sheet_def)
  have n2: "normalize_date (cells example_sheet (3, 1)) = Some (rec_date run_record)"
    by (simp add: example_sheet_def run_record_def normalize_long_example)
  have n3: "normalize_date (cells example_sheet (4, 1)) = Some (rec_date run_record)"
    by (simp add: example_sheet_def run_record_def normalize_iso_example)
  have f: "find_date_row example_sheet (rec_date run_record) 1 = Some 3"
    by (simp add: run_record_def example_find)
  from first_match_wins[OF a b c i ij j n2 n3, of example_entered] f
  have "\<exists>st. update_sheet example_entered example_mapping example_sheet [run_record] = Inr st \<and>
      (\<forall>c \<in> set (concat (batches st)). cell_row c = 3) \<and>
      (\<forall>col. cells (sheet st) (4, col) = cells example_sheet (4, col))"
    by auto
  with a b c i ij j n2 n3 f show ?thesis by blast
qed

lemma run_sheet:
  "\<exists>new. batches (foldl (sync_record e dc xc pc du nc) st acts) = batches st @ new \<and>
         sheet (foldl (sync_record e dc xc pc du nc) st acts) = fold (update_cells e) new (sheet st) \<and>
         updates (foldl (sync_record e dc xc pc du nc) st acts) = updates st + length new \<and>
         (\<forall>b \<in> set new. \<exists>row a. a \<in> set acts \<and> b = cells_to_update xc pc du nc row a)"
proof (induction acts arbitrary: st)
  case Nil
  show ?case by simp
next
  case (Cons a acts)
  let ?st1 = "sync_record e dc xc pc du nc st a"
  from Cons.IH[of ?st1] obtain new where new:
    "batches (foldl (sync_record e dc xc pc du nc) ?st1 acts) = batches ?st1 @ new"
    "sheet (foldl (sync_record e dc xc pc du nc) ?st1 acts) = fold (update_cells e) new (sheet ?st1)"
    "updates (foldl (sync_record e dc xc pc du nc) ?st1 acts) = updates ?st1 + length new"
    "\<forall>b \<in> set new. \<exists>row a. a \<in> set acts \<and> b = cells_to_update xc pc du nc row a"
    by (elim exE conjE)
  show ?case
  proof (cases "find_date_row (sheet st) (rec_date a) dc")
    case None
    have s1: "sheet ?st1 = sheet st" "batches ?st1 = batches st" "updates ?st1 = updates st"
      by (simp_all add: sync_record_unmatched[OF None])
    have orig: "\<forall>b \<in> set new. \<exists>row a'. a' \<in> set (a # acts) \<and> b = cells_to_update xc pc du nc row a'"
    proof
      fix b assume "b \<in> set new"
      with new(4) obtain row a' where "a' \<in> set acts" "b = cells_to_update xc pc du nc row a'"
        by blast
      then show "\<exists>row a'. a' \<in> set (a # acts) \<and> b = cells_to_update xc pc du nc row a'"
        by (intro exI[of _ row] exI[of _ a']) simp
    qed
    show ?thesis
    proof (intro exI[of _ new] conjI)
      show "batches (foldl (sync_record e dc xc pc du nc) st (a # acts)) = batches st @ new"
        using new(1) by (simp add: s1)
      show "sheet (foldl (sync_record e dc xc pc du nc) st (a # acts)) =
              fold (update_cells e) new (sheet st)"
        using new(2) by (simp add: s1)
      show "updates (foldl (sync_record e dc xc pc du nc) st (a # acts)) = updates st + length new"
        using new(3) by (simp add: s1)
      show "\<forall>b \<in> set new. \<exists>row a'. a' \<in> set (a # acts) \<and> b = cells_to_update xc pc du nc row a'"
        by (rule orig)
    qed
  next
    case (Some row)
    let ?b = "cells_to_update xc pc du nc row a"
    have s1: "sheet ?st1 = update_cells e ?b (sheet st)" "batches ?st1 = batches st @ [?b]"
      "updates ?st1 = updates st + 1"
      by (simp_all add: sync_record_matched[OF Some])
    have orig: "\<forall>b \<in> set (?b # new). \<exists>row a'. a' \<in> set (a # acts) \<and> b = cells_to_update xc pc du nc row a'"
    proof
      fix b assume "b \<in> set (?b # new)"
      then consider "b = ?b" | "b \<in> set new" by auto
      then show "\<exists>row a'. a' \<in> set (a # acts) \<and> b = cells_to_update xc pc du nc row a'"
      proof cases
        case 1
        then show ?thesis by (intro exI[of _ row] exI[of _ a]) simp
      next
        case 2
        with new(4) obtain row' a' where "a' \<in> set acts" "b = cells_to_update xc pc du nc row' a'"
          by blast
        then show ?thesis by (intro exI[of _ row'] exI[of _ a']) simp
      qed
    qed
    show ?thesis
    proof (intro exI[of _ "?b # new"] conjI)
      show "batches (foldl (sync_record e dc xc pc du nc) st (a # acts)) = batches st @ (?b # new)"
        using new(1) by (simp add: s1)
      show "sheet (foldl (sync_record e dc xc pc du nc) st (a # acts)) =
              fold (update_cells e) (?b # new) (sheet st)"
        using new(2) by (simp add: s1)
      show "updates (foldl (sync_record e dc xc pc du nc) st (a # acts)) =
              updates st + length (?b # new)"
        using new(3) by (simp add: s1)
      show "\<forall>b \<in> set (?b # new). \<exists>row a'. a' \<in> set (a # acts) \<and>
              b = cells_to_update xc pc du nc row a'"
        by (rule orig)
    qed
  qed
qed

lemma fold_update_cells_outside:
  "\<forall>b \<in> set Bs. k \<notin> cell_pos ` set b \<Longrightarrow> cells (fold (update_cells e) Bs ws) k = cells ws k"
  by (induction Bs arbitrary: ws) (simp_all add: cells_update_cells_outside)

lemma row_count_fold_update_cells: "row_count (fold (update_cells e) Bs ws) = row_count ws"
  by (induction Bs arbitrary: ws) (simp_all add: row_count_update_cells)

lemma planned_batches_append:
  "planned_batches ws dc xc pc du nc (xs @ ys) =
   planned_batches ws dc xc pc du nc xs @ planned_batches ws dc xc pc du nc ys"
  by (simp add: planned_batches_def)

lemma planned_batches_origin:
  "b \<in> set (planned_batches ws dc xc pc du nc acts) \<Longrightarrow>
   \<exists>a \<in> set acts. \<exists>row. find_date_row ws (rec_date a) dc = Some row \<and>
                        b = cells_to_update xc pc du nc row a"
proof (induction acts)
  case Nil
  then show ?case by (simp add: planned_batches_def)
next
  case (Cons x acts)
  from Cons.prems have "b \<in> set (planned_batches ws dc xc pc du nc [x]) \<or>
                        b \<in> set (planned_batches ws dc xc pc du nc acts)"
    using planned_batches_append[of ws dc xc pc du nc "[x]" acts] by simp
  then show ?case
  proof
    assume b: "b \<in> set (planned_batches ws dc xc pc du nc [x])"
    then obtain row where "find_date_row ws (rec_date x) dc = Some row"
      "b = cells_to_update xc pc du nc row x"
      by (cases "find_date_row ws (rec_date x) dc") (simp_all add: planned_batches_def)
    then show ?thesis by auto
  next
    assume "b \<in> set (planned_batches ws dc xc pc du nc acts)"
    from Cons.IH[OF this] show ?thesis by auto
  qed
qed




lemma floor_621: "\<lfloor>621 / 100 :: rat\<rfloor> = 6"
  by (rule floor_unique) simp_all

lemma example_entered_621: "example_entered (Number (621 / 100)) = ''6.21''"
proof -
  have a: "\<lfloor>621 / 100 :: rat\<rfloor> = 6" by (rule floor_unique) simp_all
  show ?thesis by (simp add: a eval_format)
qed

lemma normalize_number_example: "normalize_date ''6.21'' = Some ''6.21''"
  by (simp add: eval_strptime eval_digits eval_format Let_def seq_to_re_def f_month_names_def
                a_month_names_def upt_rec)

text \<open>
  Claim C10, as amended. In every run all written cells lie in the distance, pace, duration
  and notes columns, every cell outside the written positions keeps its value, and the turn
  of the loop on a record that matches no row only appends its date to \<open>skipped\<close>. If the
  date column is none of the written columns, then moreover each written cell lies in a row
  matched by the date of one of the records, the date column is never written and reads the
  same after the run, every date is matched at the same row as before, and the skipped dates
  are those of the records without a match.
\<close>

theorem update_sheet_frame:
  assumes "date_column m = Some dc" and "distance_column m = Some xc"
    and "pace_column m = Some pc"
  shows "\<exists>st.
     update_sheet entered m ws acts = Inr st \<and>
     (\<forall>b \<in> set (batches st). \<forall>c \<in> set b.
        cell_col c \<in> set (written_cols xc pc (duration_column m) (notes_column m))) \<and>
     (\<forall>k. k \<notin> cell_pos ` set (concat (batches st)) \<longrightarrow> cells (sheet st) k = cells ws k) \<and>
     row_count (sheet st) = row_count ws \<and>
     updates st = length (batches st) \<and>
     (\<forall>st0 a. find_date_row (sheet st0) (rec_date a) dc = None \<longrightarrow>
        sync_record entered dc xc pc (duration_column m) (notes_column m) st0 a =
          st0\<lparr>skipped := skipped st0 @ [rec_date a]\<rparr>) \<and>
     (dc \<notin> set (written_cols xc pc (duration_column m) (notes_column m)) \<longrightarrow>
        (\<forall>b \<in> set (batches st). \<forall>c \<in> set b.
           cell_col c \<noteq> dc \<and>
           (\<exists>a \<in> set acts. find_date_row ws (rec_date a) dc = Some (cell_row c))) \<and>
        (\<forall>r. cells (sheet st) (r, dc) = cells ws (r, dc)) \<and>
        col_values (sheet st) dc = col_values ws dc \<and>
        (\<forall>d. find_date_row (sheet st) d dc = find_date_row ws d dc) \<and>
        batches st = planned_batches ws dc xc pc (duration_column m) (notes_column m) acts \<and>
        skipped st = unmatched_dates ws dc acts)"
proof -
  let ?du = "duration_column m" and ?nc = "notes_column m"
  let ?W = "written_cols xc pc ?du ?nc"
  let ?init = "\<lparr>sheet = ws, updates = 0, skipped = [], batches = []\<rparr>"
  let ?st = "foldl (sync_record entered dc xc pc ?du ?nc) ?init acts"
  have run: "update_sheet entered m ws acts = Inr ?st"
    by (rule update_sheet_columns[OF assms])
  from run_sheet[where e = entered and dc = dc and xc = xc and pc = pc and du = "?du"
                      and nc = "?nc" and st = "?init" and acts = acts]
  obtain new where new0: "batches ?st = batches ?init @ new"
    "sheet ?st = fold (update_cells entered) new (sheet ?init)"
    "updates ?st = updates ?init + length new"
    "\<forall>b \<in> set new. \<exists>row a. a \<in> set acts \<and> b = cells_to_update xc pc ?du ?nc row a"
    by (elim exE conjE)
  have new: "batches ?st = new" "sheet ?st = fold (update_cells entered) new ws"
    "updates ?st = length new"
    "\<forall>b \<in> set new. \<exists>row a. a \<in> set acts \<and> b = cells_to_update xc pc ?du ?nc row a"
    using new0 by simp_all
  have cols: "\<forall>b \<in> set (batches ?st). \<forall>c \<in> set b. cell_col c \<in> set ?W"
  proof (intro ballI)
    fix b c assume "b \<in> set (batches ?st)" and c: "c \<in> set b"
    with new(1,4) obtain row a where "b = cells_to_update xc pc ?du ?nc row a" by auto
    with c show "cell_col c \<in> set ?W" using cells_to_update_pos by blast
  qed
  have frame: "\<forall>k. k \<notin> cell_pos ` set (concat (batches ?st)) \<longrightarrow> cells (sheet ?st) k = cells ws k"
  proof (intro allI impI)
    fix k assume "k \<notin> cell_pos ` set (concat (batches ?st))"
    then have "\<forall>b \<in> set new. k \<notin> cell_pos ` set b" by (auto simp: new(1))
    then show "cells (sheet ?st) k = cells ws k"
      by (simp add: new(2) fold_update_cells_outside)
  qed
  have rc: "row_count (sheet ?st) = row_count ws"
    by (simp add: new(2) row_count_fold_update_cells)
  have up: "updates ?st = length (batches ?st)" by (simp add: new(1,3))
  have unm: "\<forall>st0 a. find_date_row (sheet st0) (rec_date a) dc = None \<longrightarrow>
        sync_record entered dc xc pc ?du ?nc st0 a = st0\<lparr>skipped := skipped st0 @ [rec_date a]\<rparr>"
    by (simp add: sync_record_unmatched)
  have cond: "(\<forall>b \<in> set (batches ?st). \<forall>c \<in> set b.
           cell_col c \<noteq> dc \<and>
           (\<exists>a \<in> set acts. find_date_row ws (rec_date a) dc = Some (cell_row c))) \<and>
        (\<forall>r. cells (sheet ?st) (r, dc) = cells ws (r, dc)) \<and>
        col_values (sheet ?st) dc = col_values ws dc \<and>
        (\<forall>d. find_date_row (sheet ?st) d dc = find_date_row ws d dc) \<and>
        batches ?st = planned_batches ws dc xc pc ?du ?nc acts \<and>
        skipped ?st = unmatched_dates ws dc acts"
    if distinct: "dc \<notin> set ?W"
  proof -
    from run_frame[OF distinct, where e = entered and st = "?init" and acts = acts]
    have b: "batches ?st = planned_batches ws dc xc pc ?du ?nc acts"
      and s: "skipped ?st = unmatched_dates ws dc acts"
      by simp_all
    have w: "\<forall>b \<in> set (batches ?st). \<forall>c \<in> set b.
           cell_col c \<noteq> dc \<and>
           (\<exists>a \<in> set acts. find_date_row ws (rec_date a) dc = Some (cell_row c))"
    proof (intro ballI)
      fix bt c assume bt: "bt \<in> set (batches ?st)" and c: "c \<in> set bt"
      from bt b planned_batches_origin[of bt ws dc xc pc ?du ?nc acts]
      obtain a row where a: "a \<in> set acts" "find_date_row ws (rec_date a) dc = Some row"
        "bt = cells_to_update xc pc ?du ?nc row a" by auto
      from c a(3) cells_to_update_pos[of c xc pc ?du ?nc row a]
      have "cell_row c = row" "cell_col c \<in> set ?W" by simp_all
      with distinct a(1,2) show "cell_col c \<noteq> dc \<and>
           (\<exists>a \<in> set acts. find_date_row ws (rec_date a) dc = Some (cell_row c))"
        by auto
    qed
    have dcol: "\<forall>r. cells (sheet ?st) (r, dc) = cells ws (r, dc)"
    proof
      fix r
      have "(r, dc) \<notin> cell_pos ` set (concat (batches ?st))"
        using w by (auto simp: cell_pos_def)
      with frame show "cells (sheet ?st) (r, dc) = cells ws (r, dc)" by blast
    qed
    have cv: "col_values (sheet ?st) dc = col_values ws dc"
      using dcol rc by (simp add: col_values_def)
    have fd: "\<forall>d. find_date_row (sheet ?st) d dc = find_date_row ws d dc"
      using cv by (simp add: find_date_row_def)
    from w dcol cv fd b s show ?thesis by blast
  qed
  show ?thesis
  proof (intro exI[of _ ?st] conjI impI)
    show "update_sheet entered m ws acts = Inr ?st" by (rule run)
    show "\<forall>b \<in> set (batches ?st). \<forall>c \<in> set b. cell_col c \<in> set ?W" by (rule cols)
    show "\<forall>k. k \<notin> cell_pos ` set (concat (batches ?st)) \<longrightarrow> cells (sheet ?st) k = cells ws k"
      by (rule frame)
    show "row_count (sheet ?st) = row_count ws" by (rule rc)
    show "updates ?st = length (batches ?st)" by (rule up)
    show "\<forall>st0 a. find_date_row (sheet st0) (rec_date a) dc = None \<longrightarrow>
        sync_record entered dc xc pc ?du ?nc st0 a = st0\<lparr>skipped := skipped st0 @ [rec_date a]\<rparr>"
      by (rule unm)
  next
    assume d: "dc \<notin> set ?W"
    note c = cond[OF d]
    show "\<forall>b \<in> set (batches ?st). \<forall>c \<in> set b.
           cell_col c \<noteq> dc \<and>
           (\<exists>a \<in> set acts. find_date_row ws (rec_date a) dc = Some (cell_row c))"
      using c by blast
    show "\<forall>r. cells (sheet ?st) (r, dc) = cells ws (r, dc)" using c by blast
    show "col_values (sheet ?st) dc = col_values ws dc" using c by blast
    show "\<forall>d. find_date_row (sheet ?st) d dc = find_date_row ws d dc" using c by blast
    show "batches ?st = planned_batches ws dc xc pc ?du ?nc acts" using c by blast
    show "skipped ?st = unmatched_dates ws dc acts" using c by blast
  qed
qed

lemma example_find_first: "find_date_row example_sheet ''2024-03-15'' 1 = Some 2"
  by (simp add: find_date_row_def example_col_values normalize_header_example
                normalize_us_example)

lemma example_find_absent: "find_date_row example_sheet ''2024-01-01'' 1 = None"
  by (simp add: find_date_row_def example_col_values normalize_header_example
                normalize_us_example normalize_long_example normalize_iso_example)

theorem update_sheet_frame_witness:
  "date_column example_mapping = Some 1 \<and> distance_column example_mapping = Some 5 \<and>
   pace_column example_mapping = Some 6 \<and>
   (1::int) \<notin> set (written_cols 5 6 (duration_column example_mapping) (notes_column example_mapping)) \<and>
   find_date_row example_sheet (rec_date absent_record) 1 = None \<and>
   (\<exists>st. update_sheet example_entered example_mapping example_sheet [run_record, absent_record]
            = Inr st \<and>
      skipped st = [''2024-01-01''] \<and> length (batches st) = 1 \<and>
      col_values (sheet st) 1 = [''Date'', ''3/15/2024'', ''March 16, 2024'', ''2024-03-16''])"
proof -
  have a: "date_column example_mapping = Some 1" and b: "distance_column example_mapping = Some 5"
    and c: "pace_column example_mapping = Some 6"
    by (simp_all add: example_mapping_def)
  have d: "(1::int) \<notin> set (written_cols 5 6 (duration_column example_mapping)
                                 (notes_column example_mapping))"
    by (simp add: written_cols_def example_mapping_def truthy_col_def)
  have f1: "find_date_row example_sheet (rec_date run_record) 1 = Some 3"
    by (simp add: run_record_def example_find)
  have f2: "find_date_row example_sheet (rec_date absent_record) 1 = None"
    by (simp add: absent_record_def example_find_absent)
  have u: "unmatched_dates example_sheet 1 [run_record, absent_record] = [''2024-01-01'']"
    by (simp add: unmatched_dates_def f1 f2) (simp add: absent_record_def)
  have p: "length (planned_batches example_sheet 1 5 6 (duration_column example_mapping)
                     (notes_column example_mapping) [run_record, absent_record]) = 1"
    by (simp add: planned_batches_def f1 f2)
  from update_sheet_frame[OF a b c, of example_entered example_sheet "[run_record, absent_record]"] d
  obtain st where st:
    "update_sheet example_entered example_mapping example_sheet [run_record, absent_record] = Inr st"
    "col_values (sheet st) 1 = col_values example_sheet 1"
    "batches st = planned_batches example_sheet 1 5 6 (duration_column example_mapping)
                    (notes_column example_mapping) [run_record, absent_record]"
    "skipped st = unmatched_dates example_sheet 1 [run_record, absent_record]"
    by blast
  have "skipped st = [''2024-01-01'']" "length (batches st) = 1"
    "col_values (sheet st) 1 = [''Date'', ''3/15/2024'', ''March 16, 2024'', ''2024-03-16'']"
    using st u p by (simp_all add: example_col_values)
  with a b c d f2 st(1) show ?thesis by blast
qed

lemma clashing_run:
  "update_sheet example_entered clashing_mapping example_sheet [first_record] =
     Inr \<lparr>sheet = update_cells example_entered (cells_to_update 1 6 (Some 7) (Some 8) 2 first_record)
                     example_sheet,
          updates = 1, skipped = [],
          batches = [cells_to_update 1 6 (Some 7) (Some 8) 2 first_record]\<rparr>"
proof -
  have f: "find_date_row (sheet \<lparr>sheet = example_sheet, updates = 0, skipped = [], batches = []\<rparr>)
             (rec_date first_record) 1 = Some 2"
    by (simp add: first_record_def example_find_first)
  show ?thesis
    by (simp add: update_sheet_def clashing_mapping_def example_mapping_def
                  sync_record_matched[OF f])
qed

lemma clashing_batch:
  "cells_to_update 1 6 (Some 7) (Some 8) 2 first_record =
     [\<lparr>cell_row = 2, cell_col = 1, cell_val = Number (621 / 100)\<rparr>,
      \<lparr>cell_row = 2, cell_col = 6, cell_val = Text ''8:02''\<rparr>,
      \<lparr>cell_row = 2, cell_col = 7, cell_val = Text ''50:00''\<rparr>,
      \<lparr>cell_row = 2, cell_col = 8, cell_val = Text ''Morning Run''\<rparr>]"
  by (simp add: cells_to_update_def truthy_col_def first_record_def)

lemma clashing_col_values:
  "col_values (update_cells example_entered (cells_to_update 1 6 (Some 7) (Some 8) 2 first_record)
                 example_sheet) 1 = [''Date'', ''6.21'', ''March 16, 2024'', ''2024-03-16'']"
  by (simp add: cells_to_update_def truthy_col_def first_record_def col_values_def
                update_cells_def example_sheet_def upt_rec floor_621 eval_format)

text \<open>
  Claim C10 as stated fails: nothing keeps the mapping from naming the date column as the
  distance column too. Then the matched row's date cell is overwritten with the distance, and
  a date that was matched before the run is matched no more.
\<close>

theorem update_sheet_frame_counterexample:
  "date_column clashing_mapping = Some 1 \<and>
   find_date_row example_sheet ''2024-03-15'' 1 = Some 2 \<and>
   batches (projr (update_sheet example_entered clashing_mapping example_sheet [first_record])) =
     [[\<lparr>cell_row = 2, cell_col = 1, cell_val = Number (621 / 100)\<rparr>,
       \<lparr>cell_row = 2, cell_col = 6, cell_val = Text ''8:02''\<rparr>,
       \<lparr>cell_row = 2, cell_col = 7, cell_val = Text ''50:00''\<rparr>,
       \<lparr>cell_row = 2, cell_col = 8, cell_val = Text ''Morning Run''\<rparr>]] \<and>
   col_values (sheet (projr (update_sheet example_entered clashing_mapping example_sheet
                               [first_record]))) 1 =
     [''Date'', ''6.21'', ''March 16, 2024'', ''2024-03-16''] \<and>
   find_date_row (sheet (projr (update_sheet example_entered clashing_mapping example_sheet
                                  [first_record]))) ''2024-03-15'' 1 = None"
proof -
  have m: "date_column clashing_mapping = Some 1"
    by (simp add: clashing_mapping_def example_mapping_def)
  have f: "find_date_row (update_cells example_entered
                            (cells_to_update 1 6 (Some 7) (Some 8) 2 first_record) example_sheet)
             ''2024-03-15'' 1 = None"
    unfolding find_date_row_def clashing_col_values
    by (simp add: normalize_header_example normalize_number_example normalize_long_example
                  normalize_iso_example)
  show ?thesis
    by (simp add: m example_find_first clashing_run clashing_batch[symmetric] f
                  clashing_col_values)
qed













section \<open>Normalising the dates of the sheet\<close>









lemma lower_slash: "lower a = CHR ''/'' \<Longrightarrow> a = CHR ''/''"
  by (simp add: lower_def split: if_splits)

lemma str_nat_nonempty: "str_nat n \<noteq> []"
  by (subst str_nat.simps) simp




























end
